theory Spec2Isabelle
  imports Main "HOL-Library.Word"
begin

section \<open>JavaScript values and the built-ins the application relies on\<close>

text \<open>
  The client keeps all of its data as JSON documents in \<open>localStorage\<close> and
  \<open>sessionStorage\<close>, so the values the modelled functions handle are the values
  \<open>JSON.parse\<close> can produce. An object is the list of its own properties in insertion
  order; a JavaScript object never has one key twice, which is the invariant \<open>wf_json\<close>
  below. A property that is absent reads as \<open>undefined\<close>, modelled by \<open>None\<close>.

  Strings are lists of characters with codes 0 to 255, and numbers are integers: a JSON text
  with a \<open>\u\<close> escape above \<open>00FF\<close>, or with a number that has a fraction or an
  exponent, has no value in this model and \<open>json_parse\<close> gives \<open>None\<close> for it. The
  records of the application (users, job descriptions, answers) hold strings, arrays of
  strings and nested objects only.
\<close>

datatype json =
    JNull
  | JBool bool
  | JNum int
  | JStr string
  | JArr "json list"
  | JObj "(string \<times> json) list"

type_synonym byte = "8 word"

datatype js_error = TypeError | SyntaxError | Error string

fun wf_json :: "json \<Rightarrow> bool" where
  "wf_json (JArr vs) = list_all wf_json vs"
| "wf_json (JObj kvs) = (distinct (map fst kvs) \<and> list_all (\<lambda>kv. wf_json (snd kv)) kvs)"
| "wf_json v = True"

text \<open>Truthiness, as \<open>if (x)\<close>, \<open>!x\<close>, \<open>x && y\<close> and \<open>x || y\<close> test it.\<close>

fun truthy :: "json \<Rightarrow> bool" where
  "truthy JNull = False"
| "truthy (JBool b) = b"
| "truthy (JNum i) = (i \<noteq> 0)"
| "truthy (JStr s) = (s \<noteq> [])"
| "truthy (JArr vs) = True"
| "truthy (JObj kvs) = True"

definition truthy_opt :: "json option \<Rightarrow> bool" where
  "truthy_opt x = (case x of None \<Rightarrow> False | Some v \<Rightarrow> truthy v)"

text \<open>
  \<open>x.k\<close> for a value \<open>x\<close> that is not \<open>null\<close>: the own property of an object, and
  \<open>undefined\<close> for the application's keys on arrays and primitives. Reading a property of
  \<open>null\<close> throws; the callers below test for \<open>JNull\<close> first.
\<close>

definition get_prop :: "json \<Rightarrow> string \<Rightarrow> json option" where
  "get_prop x k = (case x of JObj kvs \<Rightarrow> map_of kvs k | _ \<Rightarrow> None)"

text \<open>\<open>obj[k] = v\<close> keeps the position of an existing key; \<open>delete obj[k]\<close>.\<close>

fun obj_set :: "(string \<times> json) list \<Rightarrow> string \<Rightarrow> json \<Rightarrow> (string \<times> json) list" where
  "obj_set [] k v = [(k, v)]"
| "obj_set ((k', v') # kvs) k v =
     (if k' = k then (k, v) # kvs else (k', v') # obj_set kvs k v)"

definition obj_delete :: "(string \<times> json) list \<Rightarrow> string \<Rightarrow> (string \<times> json) list" where
  "obj_delete kvs k = filter (\<lambda>kv. fst kv \<noteq> k) kvs"

subsection \<open>Strings\<close>

text \<open>\<open>Array.prototype.join\<close> on strings.\<close>

fun join :: "string \<Rightarrow> string list \<Rightarrow> string" where
  "join sep [] = []"
| "join sep [x] = x"
| "join sep (x # y # ys) = x @ sep @ join sep (y # ys)"

text \<open>\<open>String.prototype.split\<close> with a one-character separator.\<close>

fun split :: "char \<Rightarrow> string \<Rightarrow> string list" where
  "split sep [] = [ [] ]"
| "split sep (c # cs) =
     (if c = sep then [] # split sep cs
      else (case split sep cs of
              [] \<Rightarrow> [ [c] ]
            | x # xs \<Rightarrow> (c # x) # xs))"

definition digit_char :: "nat \<Rightarrow> char" where
  "digit_char d = char_of (48 + d)"

fun show_nat :: "nat \<Rightarrow> string" where
  "show_nat n = (if n < 10 then [digit_char n] else show_nat (n div 10) @ [digit_char (n mod 10)])"

declare show_nat.simps [simp del]

definition show_int :: "int \<Rightarrow> string" where
  "show_int i = (if i < 0 then CHR ''-'' # show_nat (nat (- i)) else show_nat (nat i))"

definition is_digit :: "char \<Rightarrow> bool" where
  "is_digit c = (48 \<le> (of_char c :: nat) \<and> (of_char c :: nat) \<le> 57)"

definition digit_val :: "char \<Rightarrow> nat" where
  "digit_val c = of_char c - 48"

definition read_nat :: "string \<Rightarrow> nat" where
  "read_nat ds = foldl (\<lambda>a c. 10 * a + digit_val c) 0 ds"

text \<open>Lower-case hexadecimal digit, as \<open>toString(16)\<close> and \<open>JSON.stringify\<close> print it.\<close>

definition hex_digit :: "nat \<Rightarrow> char" where
  "hex_digit d = (if d < 10 then char_of (48 + d) else char_of (87 + d))"

definition hex_val :: "char \<Rightarrow> nat option" where
  "hex_val c =
     (let n = (of_char c :: nat) in
      if 48 \<le> n \<and> n \<le> 57 then Some (n - 48)
      else if 97 \<le> n \<and> n \<le> 102 then Some (n - 87)
      else if 65 \<le> n \<and> n \<le> 70 then Some (n - 55)
      else None)"

text \<open>
  \<open>String.prototype.trim\<close> removes white space and line terminators at both ends; among
  the codes 0 to 255 these are 9 to 13, 32 and 160.
\<close>

definition is_js_space :: "char \<Rightarrow> bool" where
  "is_js_space c =
     (let n = (of_char c :: nat) in (9 \<le> n \<and> n \<le> 13) \<or> n = 32 \<or> n = 160)"

definition js_trim :: "string \<Rightarrow> string" where
  "js_trim s = rev (dropWhile is_js_space (rev (dropWhile is_js_space s)))"

text \<open>
  \<open>String.prototype.toLowerCase\<close> on the codes 0 to 255: the letters A to Z and the
  accented capitals 192 to 222 (except the multiplication sign 215) move up by 32.
\<close>

definition lower_char :: "char \<Rightarrow> char" where
  "lower_char c =
     (let n = (of_char c :: nat) in
      if (65 \<le> n \<and> n \<le> 90) \<or> (192 \<le> n \<and> n \<le> 222 \<and> n \<noteq> 215) then char_of (n + 32) else c)"

definition toLowerCase :: "string \<Rightarrow> string" where
  "toLowerCase s = map lower_char s"




subsection \<open>Conversion to string\<close>

text \<open>
  \<open>String(v)\<close>, which template literals and \<open>join\<close> apply to a value that is not a
  string. Inside \<open>join\<close> an element that is \<open>null\<close> gives the empty string.
\<close>

fun js_string :: "json \<Rightarrow> string" where
  "js_string JNull = ''null''"
| "js_string (JBool b) = (if b then ''true'' else ''false'')"
| "js_string (JNum i) = show_int i"
| "js_string (JStr s) = s"
| "js_string (JArr vs) = join '','' (map (\<lambda>v. if v = JNull then [] else js_string v) vs)"
| "js_string (JObj kvs) = ''[object Object]''"

definition array_join :: "string \<Rightarrow> json list \<Rightarrow> string" where
  "array_join sep vs = join sep (map (\<lambda>v. if v = JNull then [] else js_string v) vs)"

subsection \<open>JSON.stringify\<close>

definition escape_char :: "char \<Rightarrow> string" where
  "escape_char c =
     (if c = CHR 0x22 then [CHR 0x5C, CHR 0x22]
      else if c = CHR 0x5C then [CHR 0x5C, CHR 0x5C]
      else if c = CHR 0x08 then [CHR 0x5C, CHR ''b'']
      else if c = CHR 0x0C then [CHR 0x5C, CHR ''f'']
      else if c = CHR 0x0A then [CHR 0x5C, CHR ''n'']
      else if c = CHR 0x0D then [CHR 0x5C, CHR ''r'']
      else if c = CHR 0x09 then [CHR 0x5C, CHR ''t'']
      else if (of_char c :: nat) < 32
        then [CHR 0x5C, CHR ''u'', CHR ''0'', CHR ''0'',
              hex_digit (of_char c div 16), hex_digit (of_char c mod 16)]
      else [c])"

definition quote :: "string \<Rightarrow> string" where
  "quote s = CHR 0x22 # concat (map escape_char s) @ [CHR 0x22]"

fun json_stringify :: "json \<Rightarrow> string" where
  "json_stringify JNull = ''null''"
| "json_stringify (JBool b) = (if b then ''true'' else ''false'')"
| "json_stringify (JNum i) = show_int i"
| "json_stringify (JStr s) = quote s"
| "json_stringify (JArr vs) = ''['' @ join '','' (map json_stringify vs) @ '']''"
| "json_stringify (JObj kvs) =
     ''{'' @ join '','' (map (\<lambda>kv. quote (fst kv) @ '':'' @ json_stringify (snd kv)) kvs) @ ''}''"

subsection \<open>JSON.parse\<close>

text \<open>
  A recursive-descent reader of the JSON grammar. The recursion is on a fuel counter;
  \<open>json_parse\<close> starts it with more fuel than the text has characters, which every text
  that \<open>json_stringify\<close> prints is shown below to need at most. A key that occurs twice
  in an object keeps its first position and its last value.
\<close>

definition is_ws :: "char \<Rightarrow> bool" where
  "is_ws c = (c = CHR '' '' \<or> c = CHR 0x09 \<or> c = CHR 0x0A \<or> c = CHR 0x0D)"

definition skip_ws :: "string \<Rightarrow> string" where
  "skip_ws s = dropWhile is_ws s"

definition unescape :: "char \<Rightarrow> char option" where
  "unescape e =
     (if e = CHR 0x22 then Some (CHR 0x22)
      else if e = CHR 0x5C then Some (CHR 0x5C)
      else if e = CHR ''/'' then Some (CHR ''/'')
      else if e = CHR ''b'' then Some (CHR 0x08)
      else if e = CHR ''f'' then Some (CHR 0x0C)
      else if e = CHR ''n'' then Some (CHR 0x0A)
      else if e = CHR ''r'' then Some (CHR 0x0D)
      else if e = CHR ''t'' then Some (CHR 0x09)
      else None)"

definition unicode_escape :: "char \<Rightarrow> char \<Rightarrow> char \<Rightarrow> char \<Rightarrow> char option" where
  "unicode_escape a b c d =
     (case (hex_val a, hex_val b, hex_val c, hex_val d) of
        (Some h3, Some h2, Some h1, Some h0) \<Rightarrow>
          if h3 = 0 \<and> h2 = 0 then Some (char_of (16 * h1 + h0)) else None
      | _ \<Rightarrow> None)"

fun parse_chars :: "string \<Rightarrow> (string \<times> string) option" where
  "parse_chars [] = None"
| "parse_chars (c # cs) =
     (if c = CHR 0x22 then Some ([], cs)
      else if c = CHR 0x5C then
        (case cs of
           [] \<Rightarrow> None
         | e # es \<Rightarrow>
             if e = CHR ''u'' then
               (case es of
                  a # b # c' # d # r \<Rightarrow>
                    (case unicode_escape a b c' d of
                       None \<Rightarrow> None
                     | Some u \<Rightarrow>
                         (case parse_chars r of
                            None \<Rightarrow> None
                          | Some (s, r') \<Rightarrow> Some (u # s, r')))
                | _ \<Rightarrow> None)
             else
               (case unescape e of
                  None \<Rightarrow> None
                | Some u \<Rightarrow>
                    (case parse_chars es of
                       None \<Rightarrow> None
                     | Some (s, r') \<Rightarrow> Some (u # s, r'))))
      else if (of_char c :: nat) < 32 then None
      else
        (case parse_chars cs of
           None \<Rightarrow> None
         | Some (s, r') \<Rightarrow> Some (c # s, r')))"

definition parse_number :: "string \<Rightarrow> (json \<times> string) option" where
  "parse_number s =
     (let neg = (s \<noteq> [] \<and> hd s = CHR ''-'');
          s1 = (if neg then tl s else s);
          ds = takeWhile is_digit s1;
          r = dropWhile is_digit s1
      in if ds = [] then None
         else if hd ds = CHR ''0'' \<and> 1 < length ds then None
         else if r \<noteq> [] \<and> (hd r = CHR ''.'' \<or> hd r = CHR ''e'' \<or> hd r = CHR ''E'') then None
         else Some (JNum (if neg then - int (read_nat ds) else int (read_nat ds)), r))"

definition parse_literal :: "string \<Rightarrow> json \<Rightarrow> string \<Rightarrow> (json \<times> string) option" where
  "parse_literal w v s = (if take (length w) s = w then Some (v, drop (length w) s) else None)"

definition obj_of_members :: "(string \<times> json) list \<Rightarrow> (string \<times> json) list" where
  "obj_of_members kvs = foldl (\<lambda>obj kv. obj_set obj (fst kv) (snd kv)) [] kvs"

fun parse_value :: "nat \<Rightarrow> string \<Rightarrow> (json \<times> string) option"
and parse_elements :: "nat \<Rightarrow> string \<Rightarrow> (json list \<times> string) option"
and parse_members :: "nat \<Rightarrow> string \<Rightarrow> ((string \<times> json) list \<times> string) option"
where
  "parse_value 0 s = None"
| "parse_value (Suc n) s =
     (case skip_ws s of
        [] \<Rightarrow> None
      | c # cs \<Rightarrow>
          if c = CHR ''{'' then
            (case skip_ws cs of
               [] \<Rightarrow> None
             | d # ds \<Rightarrow>
                 if d = CHR ''}'' then Some (JObj [], ds)
                 else (case parse_members n (d # ds) of
                         None \<Rightarrow> None
                       | Some (kvs, r) \<Rightarrow> Some (JObj (obj_of_members kvs), r)))
          else if c = CHR ''['' then
            (case skip_ws cs of
               [] \<Rightarrow> None
             | d # ds \<Rightarrow>
                 if d = CHR '']'' then Some (JArr [], ds)
                 else (case parse_elements n (d # ds) of
                         None \<Rightarrow> None
                       | Some (vs, r) \<Rightarrow> Some (JArr vs, r)))
          else if c = CHR 0x22 then
            (case parse_chars cs of
               None \<Rightarrow> None
             | Some (str, r) \<Rightarrow> Some (JStr str, r))
          else if c = CHR ''t'' then parse_literal ''true'' (JBool True) (c # cs)
          else if c = CHR ''f'' then parse_literal ''false'' (JBool False) (c # cs)
          else if c = CHR ''n'' then parse_literal ''null'' JNull (c # cs)
          else parse_number (c # cs))"
| "parse_elements 0 s = None"
| "parse_elements (Suc n) s =
     (case parse_value n s of
        None \<Rightarrow> None
      | Some (v, r) \<Rightarrow>
          (case skip_ws r of
             [] \<Rightarrow> None
           | c # cs \<Rightarrow>
               if c = CHR '','' then
                 (case parse_elements n cs of
                    None \<Rightarrow> None
                  | Some (vs, r') \<Rightarrow> Some (v # vs, r'))
               else if c = CHR '']'' then Some ([v], cs)
               else None))"
| "parse_members 0 s = None"
| "parse_members (Suc n) s =
     (case skip_ws s of
        [] \<Rightarrow> None
      | q # cs \<Rightarrow>
          if q \<noteq> CHR 0x22 then None
          else
            (case parse_chars cs of
               None \<Rightarrow> None
             | Some (k, r) \<Rightarrow>
                 (case skip_ws r of
                    [] \<Rightarrow> None
                  | c # r1 \<Rightarrow>
                      if c \<noteq> CHR '':'' then None
                      else
                        (case parse_value n r1 of
                           None \<Rightarrow> None
                         | Some (v, r2) \<Rightarrow>
                             (case skip_ws r2 of
                                [] \<Rightarrow> None
                              | c' # r3 \<Rightarrow>
                                  if c' = CHR '','' then
                                    (case parse_members n r3 of
                                       None \<Rightarrow> None
                                     | Some (kvs, r4) \<Rightarrow> Some ((k, v) # kvs, r4))
                                  else if c' = CHR ''}'' then Some ([(k, v)], r3)
                                  else None)))))"

text \<open>\<open>JSON.parse\<close>: \<open>None\<close> is the \<open>SyntaxError\<close> it throws.\<close>

definition json_parse :: "string \<Rightarrow> json option" where
  "json_parse s =
     (case parse_value (Suc (length s)) s of
        None \<Rightarrow> None
      | Some (v, r) \<Rightarrow> if skip_ws r = [] then Some v else None)"

section \<open>Browser storage and the StorageManager\<close>

text \<open>
  \<open>localStorage\<close> and \<open>sessionStorage\<close> map keys to strings. \<open>setItem\<close> throws when
  the browser refuses the write (quota exceeded, storage disabled); which writes a browser
  accepts is a property of the environment, the field \<open>accepts\<close>. \<open>getItem\<close> of an
  absent key is \<open>null\<close>, here \<open>None\<close>.
\<close>

record web_storage =
  items :: "string \<rightharpoonup> string"
  accepts :: "string \<Rightarrow> string \<Rightarrow> bool"

definition getItem :: "web_storage \<Rightarrow> string \<Rightarrow> string option" where
  "getItem st k = items st k"

definition setItem :: "web_storage \<Rightarrow> string \<Rightarrow> string \<Rightarrow> web_storage option" where
  "setItem st k v = (if accepts st k v then Some (st\<lparr>items := (items st)(k \<mapsto> v)\<rparr>) else None)"

definition removeItem :: "web_storage \<Rightarrow> string \<Rightarrow> web_storage" where
  "removeItem st k = st\<lparr>items := (items st)(k := None)\<rparr>"

text \<open>\<open>x || d\<close> for a string or \<open>null\<close> \<open>x\<close>: the empty string is falsy too.\<close>

definition or_else :: "string option \<Rightarrow> string \<Rightarrow> string" where
  "or_else x d = (case x of None \<Rightarrow> d | Some s \<Rightarrow> if s = [] then d else s)"

text \<open>
  Each loader is \<open>try { return JSON.parse(getItem(key) || dflt) } catch { return dflt' }\<close>;
  each saver is \<open>try { setItem(key, JSON.stringify(v)) } catch { console.error(..) }\<close>, so a
  refused write leaves the storage as it was.
\<close>

definition loadUsers :: "web_storage \<Rightarrow> json" where
  "loadUsers ls =
     (case json_parse (or_else (getItem ls ''users'') ''[]'') of
        None \<Rightarrow> JArr []
      | Some v \<Rightarrow> v)"

definition saveUsers :: "json \<Rightarrow> web_storage \<Rightarrow> web_storage" where
  "saveUsers users ls =
     (case setItem ls ''users'' (json_stringify users) of
        None \<Rightarrow> ls
      | Some ls' \<Rightarrow> ls')"

definition getCurrentUser :: "web_storage \<Rightarrow> json" where
  "getCurrentUser ss =
     (case json_parse (or_else (getItem ss ''currentUser'') ''null'') of
        None \<Rightarrow> JNull
      | Some v \<Rightarrow> v)"

definition setCurrentUser :: "json \<Rightarrow> web_storage \<Rightarrow> web_storage" where
  "setCurrentUser user ss =
     (case setItem ss ''currentUser'' (json_stringify user) of
        None \<Rightarrow> ss
      | Some ss' \<Rightarrow> ss')"

definition clearCurrentUser :: "web_storage \<Rightarrow> web_storage" where
  "clearCurrentUser ss = removeItem ss ''currentUser''"

definition loadJobDescriptions :: "web_storage \<Rightarrow> json" where
  "loadJobDescriptions ls =
     (case json_parse (or_else (getItem ls ''jobDescriptions'') ''[]'') of
        None \<Rightarrow> JArr []
      | Some v \<Rightarrow> v)"

definition saveJobDescriptions :: "json \<Rightarrow> web_storage \<Rightarrow> web_storage" where
  "saveJobDescriptions jobDescriptions ls =
     (case setItem ls ''jobDescriptions'' (json_stringify jobDescriptions) of
        None \<Rightarrow> ls
      | Some ls' \<Rightarrow> ls')"

text \<open>
  \<open>saveJobDescription\<close> loads the list, \<open>unshift\<close>s the new entry and saves. When the
  stored value parses to something that is not an array, \<open>unshift\<close> is not a function and
  the call throws.
\<close>

definition saveJobDescription :: "json \<Rightarrow> web_storage \<Rightarrow> js_error + web_storage" where
  "saveJobDescription jobDescription ls =
     (case loadJobDescriptions ls of
        JArr jobDescriptions \<Rightarrow> Inr (saveJobDescriptions (JArr (jobDescription # jobDescriptions)) ls)
      | _ \<Rightarrow> Inl TypeError)"

definition getModel :: string where
  "getModel = ''gpt-4o-mini''"

definition getProxyBase :: "web_storage \<Rightarrow> string" where
  "getProxyBase ls = or_else (getItem ls ''proxy_base'') ''http://localhost:8787''"

text \<open>A storage that refuses every write, and an empty one that accepts every write.\<close>

definition full_storage :: web_storage where
  "full_storage = \<lparr>items = Map.empty, accepts = (\<lambda>k v. False)\<rparr>"

definition empty_storage :: web_storage where
  "empty_storage = \<lparr>items = Map.empty, accepts = (\<lambda>k v. True)\<rparr>"

section \<open>The browser state the views and handlers act on\<close>

text \<open>
  \<open>showNotification\<close> adds a toast (message and type) to the page; \<open>setTimeout\<close> with a
  callback that assigns \<open>location.hash\<close> is recorded as a pending timer.
\<close>

record browser =
  localStorage :: web_storage
  sessionStorage :: web_storage
  location_hash :: string
  notifications :: "(string \<times> string) list"
  timers :: "(nat \<times> string) list"

definition showNotification :: "string \<Rightarrow> string \<Rightarrow> browser \<Rightarrow> browser" where
  "showNotification message ntype b = b\<lparr>notifications := notifications b @ [(message, ntype)]\<rparr>"

section \<open>PasswordSecurity\<close>

text \<open>
  The Web Crypto calls are the environment: \<open>deriveBits\<close> stands for \<open>importKey\<close> of the
  encoded password followed by \<open>deriveBits\<close> with PBKDF2, SHA-256, 100000 iterations and
  256 bits, and is \<open>None\<close> when either call rejects. \<open>crypto.getRandomValues\<close> on a fresh
  16-byte array is the argument \<open>rnd\<close> of \<open>hashPassword\<close>.

  \<open>new Uint8Array(salt.split(",").map(Number))\<close> turns each piece into a byte. For a piece
  of at most 15 decimal digits \<open>Number\<close> is exact and the byte is its value modulo 256; the
  empty piece is 0; what the platform makes of any other piece is the field
  \<open>number_byte\<close>.
\<close>

record crypto_api =
  deriveBits :: "string \<Rightarrow> byte list \<Rightarrow> byte list option"
  number_byte :: "string \<Rightarrow> byte"

definition to_byte :: "crypto_api \<Rightarrow> string \<Rightarrow> byte" where
  "to_byte C piece =
     (if piece = [] then 0
      else if list_all is_digit piece \<and> length piece \<le> 15 then of_nat (read_nat piece)
      else number_byte C piece)"

definition hex_byte :: "byte \<Rightarrow> string" where
  "hex_byte b = [hex_digit (unat b div 16), hex_digit (unat b mod 16)]"

definition hashing_failed :: js_error where
  "hashing_failed = Error ''Password hashing failed. Please try again.''"

definition derive :: "crypto_api \<Rightarrow> string \<Rightarrow> byte list \<Rightarrow> js_error + (string \<times> string)" where
  "derive C password salt =
     (case deriveBits C password salt of
        None \<Rightarrow> Inl hashing_failed
      | Some derivedBits \<Rightarrow>
          Inr (concat (map hex_byte derivedBits), join '','' (map (\<lambda>b. show_nat (unat b)) salt)))"

text \<open>
  \<open>hashPassword(password, salt)\<close> returns \<open>{hashedPassword, salt}\<close>, here a pair. A falsy
  salt (absent, \<open>null\<close>, the empty string) is replaced by random bytes; a string is split
  into bytes; any other value reaches \<open>deriveBits\<close> as it is, which rejects a salt that is
  not a buffer. Every failure is rethrown as one \<open>Error\<close>.
\<close>

definition hashPassword :: "crypto_api \<Rightarrow> byte list \<Rightarrow> string \<Rightarrow> json option \<Rightarrow> js_error + (string \<times> string)" where
  "hashPassword C rnd password salt =
     (if \<not> truthy_opt salt then derive C password rnd
      else (case salt of
              Some (JStr s) \<Rightarrow> derive C password (map (to_byte C) (split CHR '','' s))
            | _ \<Rightarrow> Inl hashing_failed))"

definition verifyPassword :: "crypto_api \<Rightarrow> byte list \<Rightarrow> string \<Rightarrow> json option \<Rightarrow> json option \<Rightarrow> bool" where
  "verifyPassword C rnd password hashedPassword salt =
     (case hashPassword C rnd password salt of
        Inl e \<Rightarrow> False
      | Inr (newHash, s) \<Rightarrow> hashedPassword = Some (JStr newHash))"

section \<open>Login, signup and the debug user\<close>

text \<open>
  The callbacks of \<open>find\<close>, \<open>findIndex\<close> and \<open>filter\<close> over the users evaluate
  \<open>u.username.toLowerCase()\<close>, which throws unless \<open>u\<close> is an object whose
  \<open>username\<close> is a string.
\<close>

definition username_lower :: "json \<Rightarrow> string option" where
  "username_lower u =
     (case get_prop u ''username'' of
        Some (JStr n) \<Rightarrow> Some (toLowerCase n)
      | _ \<Rightarrow> None)"

fun find_user :: "string \<Rightarrow> json list \<Rightarrow> js_error + json option" where
  "find_user target [] = Inr None"
| "find_user target (u # us) =
     (case username_lower u of
        None \<Rightarrow> Inl TypeError
      | Some n \<Rightarrow> if n = target then Inr (Some u) else find_user target us)"

fun findIndex_user :: "string \<Rightarrow> json list \<Rightarrow> js_error + nat option" where
  "findIndex_user target [] = Inr None"
| "findIndex_user target (u # us) =
     (case username_lower u of
        None \<Rightarrow> Inl TypeError
      | Some n \<Rightarrow>
          if n = target then Inr (Some 0)
          else (case findIndex_user target us of
                  Inl e \<Rightarrow> Inl e
                | Inr None \<Rightarrow> Inr None
                | Inr (Some i) \<Rightarrow> Inr (Some (Suc i))))"

fun filter_other_users :: "string \<Rightarrow> json list \<Rightarrow> js_error + json list" where
  "filter_other_users target [] = Inr []"
| "filter_other_users target (u # us) =
     (case username_lower u of
        None \<Rightarrow> Inl TypeError
      | Some n \<Rightarrow>
          (case filter_other_users target us of
             Inl e \<Rightarrow> Inl e
           | Inr rest \<Rightarrow> Inr (if n \<noteq> target then u # rest else rest)))"

definition validateLogin :: "string \<Rightarrow> string \<Rightarrow> string list" where
  "validateLogin username password =
     (if username = [] then [''Username is required.''] else [])
     @ (if password = [] then [''Password is required.''] else [])"

text \<open>
  The upgrade of a legacy record after its plain-text password matched: hash the entered
  password, put \<open>hashedPassword\<close> and \<open>salt\<close> on the record, delete \<open>password\<close>
  (\<open>upgraded\<close>), reload
  the users, replace the record at the index \<open>findIndex\<close> gives and save. The whole block
  is inside \<open>try { .. } catch { /* continue with login */ }\<close>. The result is the record as
  the rest of the handler sees it, and the storage.
\<close>

definition upgraded :: "(string \<times> json) list \<Rightarrow> string \<Rightarrow> string \<Rightarrow> (string \<times> json) list" where
  "upgraded user hashedPassword salt =
     obj_delete
       (obj_set (obj_set user ''hashedPassword'' (JStr hashedPassword)) ''salt'' (JStr salt))
       ''password''"

definition upgrade_user ::
  "crypto_api \<Rightarrow> byte list \<Rightarrow> string \<Rightarrow> (string \<times> json) list \<Rightarrow> web_storage
   \<Rightarrow> (string \<times> json) list \<times> web_storage" where
  "upgrade_user C rnd password user ls =
     (case hashPassword C rnd password None of
        Inl e \<Rightarrow> (user, ls)
      | Inr (hashedPassword, salt) \<Rightarrow>
          (let user' = upgraded user hashedPassword salt
           in case loadUsers ls of
                JArr users \<Rightarrow>
                  (case username_lower (JObj user') of
                     None \<Rightarrow> (user', ls)
                   | Some target \<Rightarrow>
                       (case findIndex_user target users of
                          Inl e \<Rightarrow> (user', ls)
                        | Inr None \<Rightarrow> (user', ls)
                        | Inr (Some userIndex) \<Rightarrow>
                            (user', saveUsers (JArr (users[userIndex := JObj user'])) ls)))
              | _ \<Rightarrow> (user', ls)))"

text \<open>
  \<open>setCurrentUser({username, first, last, email})\<close>: \<open>JSON.stringify\<close> leaves out a
  property whose value is \<open>undefined\<close>.
\<close>

definition session_user :: "(string \<times> json) list \<Rightarrow> json" where
  "session_user user =
     JObj (concat (map (\<lambda>k. case map_of user k of None \<Rightarrow> [] | Some v \<Rightarrow> [(k, v)])
                       [''username'', ''first'', ''last'', ''email'']))"

definition welcome_message :: "(string \<times> json) list \<Rightarrow> string" where
  "welcome_message user =
     ''Welcome back, ''
     @ (case (if truthy_opt (map_of user ''first'') then map_of user ''first''
              else map_of user ''username'') of
          None \<Rightarrow> ''undefined''
        | Some v \<Rightarrow> js_string v)
     @ ''!''"

definition login_finish :: "bool \<Rightarrow> (string \<times> json) list \<Rightarrow> browser \<Rightarrow> browser" where
  "login_finish isValidPassword user b =
     (if \<not> isValidPassword then showNotification ''Invalid username or password.'' ''error'' b
      else (showNotification (welcome_message user) ''success''
              (b\<lparr>sessionStorage := setCurrentUser (session_user user) (sessionStorage b)\<rparr>))
             \<lparr>location_hash := ''#/''\<rparr>)"

text \<open>
  The \<open>try\<close> block of the login handler; \<open>Inl\<close> is an exception that reaches its
  \<open>catch\<close>. \<open>find\<close> only returns an element whose \<open>username\<close> it could read, so an
  object; the last but one case is there for completeness.
\<close>

definition login_try :: "crypto_api \<Rightarrow> byte list \<Rightarrow> string \<Rightarrow> string \<Rightarrow> browser \<Rightarrow> js_error + browser" where
  "login_try C rnd username password b =
     (case loadUsers (localStorage b) of
        JArr users \<Rightarrow>
          (case find_user (toLowerCase username) users of
             Inl e \<Rightarrow> Inl e
           | Inr None \<Rightarrow> Inr (showNotification ''Invalid username or password.'' ''error'' b)
           | Inr (Some (JObj user)) \<Rightarrow>
               if truthy_opt (map_of user ''hashedPassword'') \<and> truthy_opt (map_of user ''salt'') then
                 Inr (login_finish
                        (verifyPassword C rnd password (map_of user ''hashedPassword'') (map_of user ''salt''))
                        user b)
               else if truthy_opt (map_of user ''password'') then
                 (if map_of user ''password'' = Some (JStr password) then
                    (case upgrade_user C rnd password user (localStorage b) of
                       (user', ls') \<Rightarrow> Inr (login_finish True user' (b\<lparr>localStorage := ls'\<rparr>)))
                  else Inr (login_finish False user b))
               else Inr (showNotification ''Account data is corrupted. Please contact support.'' ''error'' b)
           | Inr (Some other) \<Rightarrow> Inl TypeError)
      | _ \<Rightarrow> Inl TypeError)"

text \<open>
  \<open>Views.Login\<close>'s submit handler, from the values of the two inputs. The header refresh at
  its end only rewrites the navigation bar and is left out.
\<close>

definition Login_handleSubmit :: "crypto_api \<Rightarrow> byte list \<Rightarrow> string \<Rightarrow> string \<Rightarrow> browser \<Rightarrow> browser" where
  "Login_handleSubmit C rnd username_value password_value b =
     (let username = js_trim username_value;
          password = password_value;
          errors = validateLogin username password
      in if errors \<noteq> [] then showNotification (join ''. '' errors) ''error'' b
         else (case login_try C rnd username password b of
                 Inl e \<Rightarrow> showNotification ''Login failed. Please try again.'' ''error'' b
               | Inr b' \<Rightarrow> b'))"

text \<open>
  \<open>Views.Signup\<close>'s submit handler. \<open>ValidationUtils.validateSignup\<close> (regular
  expressions over the fields and uniqueness checks) is not modelled: its outcome, the list
  of error messages or the exception it throws on a malformed users list, is the argument
  \<open>validation\<close>. That call is outside the \<open>try\<close>, so its exception leaves the handler.
  \<open>now\<close> is \<open>new Date().toISOString()\<close>.
\<close>

record signup_fields =
  su_first :: string
  su_last :: string
  su_username :: string
  su_email :: string
  su_password :: string

definition new_user :: "signup_fields \<Rightarrow> string \<Rightarrow> string \<Rightarrow> string \<Rightarrow> json" where
  "new_user form hashedPassword salt now =
     JObj [(''username'', JStr (su_username form)),
           (''email'', JStr (su_email form)),
           (''first'', JStr (su_first form)),
           (''last'', JStr (su_last form)),
           (''hashedPassword'', JStr hashedPassword),
           (''salt'', JStr salt),
           (''createdAt'', JStr now)]"

definition Signup_handleSubmit ::
  "crypto_api \<Rightarrow> byte list \<Rightarrow> string \<Rightarrow> js_error + string list \<Rightarrow> signup_fields \<Rightarrow> browser
   \<Rightarrow> js_error + browser" where
  "Signup_handleSubmit C rnd now validation form b =
     (case validation of
        Inl e \<Rightarrow> Inl e
      | Inr errors \<Rightarrow>
          if errors \<noteq> [] then
            Inr (showNotification (join ''<br>'' (map (\<lambda>e. ''- '' @ e) errors)) ''error'' b)
          else
            Inr (case hashPassword C rnd (su_password form) None of
                   Inl e \<Rightarrow> showNotification ''Account creation failed. Please try again.'' ''error'' b
                 | Inr (hashedPassword, salt) \<Rightarrow>
                     (case loadUsers (localStorage b) of
                        JArr users \<Rightarrow>
                          (showNotification ''Account created successfully! You can now login.'' ''success''
                             (b\<lparr>localStorage :=
                                  saveUsers (JArr (users @ [new_user form hashedPassword salt now]))
                                    (localStorage b)\<rparr>))
                            \<lparr>timers := timers b @ [(1500, ''#/login'')]\<rparr>
                      | _ \<Rightarrow> showNotification ''Account creation failed. Please try again.'' ''error'' b)))"

text \<open>\<open>window.createTestUser\<close>, the debug utility at the end of the script.\<close>

definition testUser :: "string \<Rightarrow> json" where
  "testUser now =
     JObj [(''username'', JStr ''dheerajkukkadapu''),
           (''email'', JStr ''test@example.com''),
           (''first'', JStr ''Dheeraj''),
           (''last'', JStr ''Kukkadapu''),
           (''password'', JStr ''password123''),
           (''createdAt'', JStr now)]"

definition createTestUser :: "string \<Rightarrow> web_storage \<Rightarrow> js_error + web_storage" where
  "createTestUser now ls =
     (case loadUsers ls of
        JArr users \<Rightarrow>
          (case filter_other_users (toLowerCase ''dheerajkukkadapu'') users of
             Inl e \<Rightarrow> Inl e
           | Inr filteredUsers \<Rightarrow> Inr (saveUsers (JArr (filteredUsers @ [testUser now])) ls))
      | _ \<Rightarrow> Inl TypeError)"

text \<open>
  A persisted record holds only derived credentials when it has \<open>hashedPassword\<close> and \<open>salt\<close> and
  no \<open>password\<close>.
\<close>

definition hashed_only :: "json \<Rightarrow> string \<Rightarrow> string \<Rightarrow> bool" where
  "hashed_only u h s =
     (get_prop u ''hashedPassword'' = Some (JStr h) \<and> get_prop u ''salt'' = Some (JStr s)
      \<and> get_prop u ''password'' = None)"

section \<open>AIService\<close>

subsection \<open>parseSourcingResponse\<close>

text \<open>
  \<open>dq\<close> puts a text between double quotes, as the template literals of the fallback do.

  The whole body is one \<open>try\<close> whose \<open>catch\<close> returns the fallback data, so the function
  returns on every input. The result type still has the error side, to state that it is
  never taken. Inside the \<open>try\<close>, \<open>JSON.parse\<close> throws on a text that is not JSON and
  \<open>parsed.companies\<close> throws when the text is \<open>null\<close>.
\<close>

definition dq :: "string \<Rightarrow> string" where
  "dq s = CHR 0x22 # s @ [CHR 0x22]"








subsection \<open>generateViaProxy\<close>

text \<open>
  What matters about this function is which object it changes, so objects live in a
  heap: a reference is an index, and \<open>{ ...answers }\<close> allocates a new object with the
  properties of \<open>answers\<close>. Property values are immutable JSON values here (the function
  only reads the arrays it joins). Spreading a reference that is not in the heap stands for
  spreading \<open>undefined\<close>, which gives the empty object.

  \<open>fetch\<close> is the environment: \<open>None\<close> is a rejected promise (network failure), otherwise
  the response with its \<open>ok\<close> flag, status and body text; \<open>response.json()\<close> parses the
  body text.
\<close>

type_synonym heap = "(string \<times> json) list list"

definition heap_get :: "heap \<Rightarrow> nat \<Rightarrow> (string \<times> json) list" where
  "heap_get h r = (if r < length h then h ! r else [])"

record http_request =
  url :: string
  http_method :: string
  content_type :: string
  body :: string

record http_response =
  ok :: bool
  status :: nat
  response_text :: string

definition join_if_array :: "string \<Rightarrow> heap \<Rightarrow> nat \<Rightarrow> heap" where
  "join_if_array k h r =
     (case map_of (heap_get h r) k of
        Some (JArr vs) \<Rightarrow> h[r := obj_set (heap_get h r) k (JStr (array_join '', '' vs))]
      | _ \<Rightarrow> h)"

definition answersForAPI :: "heap \<Rightarrow> nat \<Rightarrow> nat \<times> heap" where
  "answersForAPI h answers =
     (let r = length h;
          h1 = h @ [heap_get h answers];
          h2 = h1[r := obj_delete (heap_get h1 r) ''company''];
          h3 = join_if_array ''skills'' h2 r;
          h4 = join_if_array ''benefits'' h3 r
      in (r, h4))"

definition generateViaProxy ::
  "(http_request \<Rightarrow> http_response option) \<Rightarrow> web_storage \<Rightarrow> nat \<Rightarrow> heap
   \<Rightarrow> (http_request \<times> (js_error + json option)) \<times> heap" where
  "generateViaProxy fetch ls answers h =
     (case answersForAPI h answers of
        (r, h') \<Rightarrow>
          (let request =
                 \<lparr>url = getProxyBase ls @ ''/api/generate'',
                  http_method = ''POST'',
                  content_type = ''application/json'',
                  body = json_stringify
                           (JObj [(''answers'', JObj (heap_get h' r)), (''model'', JStr getModel)])\<rparr>
           in ((request,
                (case fetch request of
                   None \<Rightarrow> Inl TypeError
                 | Some response \<Rightarrow>
                     if \<not> ok response then
                       Inl (Error (''HTTP '' @ show_nat (status response) @ '': ''
                                   @ response_text response))
                     else
                       (case json_parse (response_text response) of
                          None \<Rightarrow> Inl SyntaxError
                        | Some JNull \<Rightarrow> Inl TypeError
                        | Some data \<Rightarrow> Inr (get_prop data ''text'')))),
               h')))"

text \<open>
  The same payload in the words of the specification: the answers without \<open>company\<close>,
  with \<open>skills\<close> and \<open>benefits\<close> joined by \<open>", "\<close> when they are arrays, and every other
  field as it is.
\<close>

definition spec_answers :: "(string \<times> json) list \<Rightarrow> (string \<times> json) list" where
  "spec_answers answers =
     map (\<lambda>kv. case snd kv of
                  JArr vs \<Rightarrow>
                    if fst kv = ''skills'' \<or> fst kv = ''benefits''
                    then (fst kv, JStr (array_join '', '' vs)) else kv
                | _ \<Rightarrow> kv)
         (filter (\<lambda>kv. fst kv \<noteq> ''company'') answers)"

section \<open>The questionnaire of the job-description builder\<close>

text \<open>
  Each question has a key, its text and its input type; only the contract-duration question
  has a \<open>condition\<close>. Placeholders, suggestions and select options are not read by the
  filter and are left out.
\<close>

record question =
  key :: string
  q :: string
  qtype :: string
  condition :: "((string \<times> json) list \<Rightarrow> bool) option"

definition questions :: "question list" where
  "questions =
     [\<lparr>key = ''role'', q = ''What is the job role?'', qtype = ''text'', condition = None\<rparr>,
      \<lparr>key = ''location'', q = ''Where is the job located?'', qtype = ''text'', condition = None\<rparr>,
      \<lparr>key = ''timezone'', q = ''What time zone should they work in?'', qtype = ''text'',
       condition = None\<rparr>,
      \<lparr>key = ''hireType'', q = ''What type of employment?'', qtype = ''select'', condition = None\<rparr>,
      \<lparr>key = ''duration'', q = ''If contract, what's the duration?'', qtype = ''text'',
       condition = Some (\<lambda>answers. map_of answers ''hireType'' = Some (JStr ''Contract''))\<rparr>,
      \<lparr>key = ''domain'', q = ''What industry or domain?'', qtype = ''text'', condition = None\<rparr>,
      \<lparr>key = ''skills'', q = ''What are the key skills required?'', qtype = ''textarea'',
       condition = None\<rparr>,
      \<lparr>key = ''goals'', q = ''What are the 1-year success goals?'', qtype = ''textarea'',
       condition = None\<rparr>,
      \<lparr>key = ''kpi'', q = ''What are the key performance indicators?'', qtype = ''text'',
       condition = None\<rparr>,
      \<lparr>key = ''superstar'', q = ''What would make this person a superstar?'', qtype = ''textarea'',
       condition = None\<rparr>,
      \<lparr>key = ''ninety'', q = ''What should they achieve in the first 90 days?'',
       qtype = ''textarea'', condition = None\<rparr>,
      \<lparr>key = ''benefits'', q = ''What benefits and perks are offered?'', qtype = ''multi-select'',
       condition = None\<rparr>,
      \<lparr>key = ''applicationProcess'', q = ''What's the application process?'', qtype = ''text'',
       condition = None\<rparr>]"

definition question_keys :: "string list" where
  "question_keys =
     [''role'', ''location'', ''timezone'', ''hireType'', ''duration'', ''domain'', ''skills'',
      ''goals'', ''kpi'', ''superstar'', ''ninety'', ''benefits'', ''applicationProcess'']"

definition getFilteredQuestions :: "(string \<times> json) list \<Rightarrow> question list" where
  "getFilteredQuestions answers =
     filter (\<lambda>question. case condition question of None \<Rightarrow> True | Some c \<Rightarrow> c answers) questions"

section \<open>Routing\<close>

text \<open>
  A view function builds a DOM tree from the browser state; the trees are not modelled, so
  a view is any function from the state to what it returns and the state it leaves.
  \<open>None\<close> is a view that throws or returns something that is not a node.
\<close>

type_synonym 'd view = "browser \<Rightarrow> 'd option \<times> browser"

record 'd views =
  Home :: "'d view"
  Login :: "'d view"
  Signup :: "'d view"
  Sales :: "'d view"
  JDBuilder :: "'d view"
  JDQuestions :: "'d view"
  JDView :: "'d view"
  Sourcing :: "'d view"
  Recruitment :: "'d view"
  Settings :: "'d view"

definition createRouteGuard :: "'d views \<Rightarrow> 'd view \<Rightarrow> 'd view" where
  "createRouteGuard V viewFunction =
     (\<lambda>b. if \<not> truthy (getCurrentUser (sessionStorage b)) then
             Login V ((showNotification ''Please login to access this page.'' ''error'' b)
                        \<lparr>location_hash := ''#/login''\<rparr>)
           else viewFunction b)"

text \<open>
  \<open>Router.routes\<close> after the \<open>Object.assign\<close> at the end of the script, in insertion
  order.
\<close>

definition routes :: "'d views \<Rightarrow> (string \<times> 'd view) list" where
  "routes V =
     [('''', Home V),
      (''#/'', Home V),
      (''#/login'', Login V),
      (''#/signup'', Signup V),
      (''#/sales'', createRouteGuard V (Sales V)),
      (''#/jd-builder'', createRouteGuard V (JDBuilder V)),
      (''#/jd-builder/questions'', createRouteGuard V (JDQuestions V)),
      (''#/jd-view'', createRouteGuard V (JDView V)),
      (''#/sourcing'', createRouteGuard V (Sourcing V)),
      (''#/recruitment'', createRouteGuard V (Recruitment V)),
      (''#/settings'', createRouteGuard V (Settings V))]"


text \<open>
  \<open>this.routes[currentHash]\<close> reads an own property of the routes object or, failing
  that, a property inherited from \<open>Object.prototype\<close>. An inherited one is truthy, so
  \<open>|| Views.Home\<close> does not replace it, and calling it never yields a node.
\<close>

definition object_prototype_names :: "string list" where
  "object_prototype_names =
     [''constructor'', ''__defineGetter__'', ''__defineSetter__'', ''hasOwnProperty'',
      ''__lookupGetter__'', ''__lookupSetter__'', ''isPrototypeOf'', ''propertyIsEnumerable'',
      ''toString'', ''valueOf'', ''__proto__'', ''toLocaleString'']"

datatype 'd page = NoRoot | Page 'd | ErrorCard

text \<open>The view \<open>Router.render\<close> picks; \<open>None\<close> is an inherited property.\<close>

definition route_view :: "'d views \<Rightarrow> string \<Rightarrow> 'd view option" where
  "route_view V currentHash =
     (case map_of (routes V) currentHash of
        Some view \<Rightarrow> Some view
      | None \<Rightarrow> if currentHash \<in> set object_prototype_names then None else Some (Home V))"

text \<open>
  \<open>Router.render\<close>: nothing without the \<open>#app\<close> element (\<open>root\<close>); otherwise the content
  of the chosen view, or the error card when the view throws or returns no node.
\<close>

definition render :: "'d views \<Rightarrow> bool \<Rightarrow> browser \<Rightarrow> 'd page \<times> browser" where
  "render V root b =
     (if \<not> root then (NoRoot, b)
      else (case route_view V (location_hash b) of
              None \<Rightarrow> (ErrorCard, b)
            | Some view \<Rightarrow>
                (case view b of
                   (None, b') \<Rightarrow> (ErrorCard, b')
                 | (Some content, b') \<Rightarrow> (Page content, b'))))"

text \<open>
  \<open>location.hash\<close> is empty or starts with \<open>#\<close>: it is the fragment of the URL with its
  \<open>#\<close>, and empty when the fragment is.
\<close>

definition is_location_hash :: "string \<Rightarrow> bool" where
  "is_location_hash h = (h = [] \<or> (hd h = CHR ''#'' \<and> tl h \<noteq> []))"

section \<open>Proxy server: the rate-limiting middleware\<close>

text \<open>
  The proxy server keeps one module-level variable \<open>last\<close> (initially 0) and installs one
  middleware in front of every endpoint:
  \<^verbatim>\<open>
  let last = 0;
  app.use((req, res, next) => {
    const now = Date.now();
    if (now - last < 750) {
      return res.status(429).json({ error: "Too many requests" });
    }
    last = now;
    next();
  });
  \<close>
  A request is modelled by the two things a limiter could distinguish it by; the middleware
  reads neither. \<open>Date.now()\<close> is an integer number of milliseconds.
\<close>

record request =
  client :: string
  endpoint :: string

datatype verdict = TooManyRequests | Next

definition initial_last :: int where
  "initial_last = 0"

definition rate_limit :: "int \<Rightarrow> request \<Rightarrow> int \<Rightarrow> verdict \<times> int" where
  "rate_limit now req last_t =
     (if now - last_t < 750 then (TooManyRequests, last_t) else (Next, now))"

text \<open>The server handling a sequence of requests, each with the clock value it arrives at.\<close>

fun serve :: "int \<Rightarrow> (int \<times> request) list \<Rightarrow> verdict list \<times> int" where
  "serve last_t [] = ([], last_t)"
| "serve last_t ((now, req) # rs) =
     (case rate_limit now req last_t of
        (v, last') \<Rightarrow> (case serve last' rs of (vs, l) \<Rightarrow> (v # vs, l)))"

section \<open>Predicates used in the proofs\<close>

text \<open>
  \<open>follow r\<close>: the text \<open>r\<close> can come after a JSON value (it is empty or starts with a
  comma or a closing bracket). \<open>starts s\<close>: \<open>s\<close> starts with a character that begins a
  value. \<open>roundtrips v\<close>: with enough fuel, the reader gets \<open>v\<close> back from its printed
  text, whatever follows. \<open>join_field k\<close>: what \<open>generateViaProxy\<close> does to one
  property when it joins the array under the key \<open>k\<close>.
\<close>

definition follow :: "string \<Rightarrow> bool" where
  "follow r = (r = [] \<or> hd r = CHR '','' \<or> hd r = CHR '']'' \<or> hd r = CHR ''}'')"

definition starts :: "string \<Rightarrow> bool" where
  "starts s = (s \<noteq> [] \<and> \<not> is_ws (hd s) \<and> hd s \<noteq> CHR '']'' \<and> hd s \<noteq> CHR ''}'')"

definition roundtrips :: "json \<Rightarrow> bool" where
  "roundtrips v =
     (\<forall>n r. follow r \<longrightarrow> length (json_stringify v) \<le> n \<longrightarrow>
            parse_value n (json_stringify v @ r) = Some (v, r))"

definition join_field :: "string \<Rightarrow> string \<times> json \<Rightarrow> string \<times> json" where
  "join_field k kv =
     (case snd kv of
        JArr vs \<Rightarrow> if fst kv = k then (fst kv, JStr (array_join '', '' vs)) else kv
      | _ \<Rightarrow> kv)"

section \<open>Example data\<close>

text \<open>
  Concrete values at which the theorems below are instantiated: views that return their
  name, a browser with nothing stored and one with a user logged in, two job
  descriptions and a storage that holds the older one, questionnaire answers, a network that is down, and a stand-in for the
  key-derivation function (it is not PBKDF2; the theorems hold for every function in its
  place) with a 16-byte salt. \<open>signed_up_browser\<close> is the fresh browser after a signup,
  \<open>legacy_browser\<close> the fresh browser after \<open>createTestUser\<close>, and
  \<open>read_only_legacy_browser\<close> the same with a \<open>localStorage\<close> that refuses writes.
\<close>

definition demo_views :: "string views" where
  "demo_views =
     \<lparr>Home = (\<lambda>b. (Some ''Home'', b)),
      Login = (\<lambda>b. (Some ''Login'', b)),
      Signup = (\<lambda>b. (Some ''Signup'', b)),
      Sales = (\<lambda>b. (Some ''Sales'', b)),
      JDBuilder = (\<lambda>b. (Some ''JDBuilder'', b)),
      JDQuestions = (\<lambda>b. (Some ''JDQuestions'', b)),
      JDView = (\<lambda>b. (Some ''JDView'', b)),
      Sourcing = (\<lambda>b. (Some ''Sourcing'', b)),
      Recruitment = (\<lambda>b. (Some ''Recruitment'', b)),
      Settings = (\<lambda>b. (Some ''Settings'', b))\<rparr>"

definition fresh_browser :: browser where
  "fresh_browser =
     \<lparr>localStorage = empty_storage, sessionStorage = empty_storage, location_hash = [],
      notifications = [], timers = []\<rparr>"



definition demo_jd :: json where
  "demo_jd =
     JObj [(''id'', JStr ''1700000000000''), (''title'', JStr ''Data Analyst''),
           (''location'', JStr ''Remote''), (''content'', JStr ''Job Title: Data Analyst''),
           (''createdAt'', JStr ''2024-01-01T00:00:00.000Z''),
           (''answers'', JObj [(''role'', JStr ''Data Analyst''), (''location'', JStr ''Remote'')])]"

definition older_jd :: json where
  "older_jd =
     JObj [(''id'', JStr ''1600000000000''), (''title'', JStr ''Backend Developer''),
           (''location'', JStr ''Austin''), (''content'', JStr ''Job Title: Backend Developer''),
           (''createdAt'', JStr ''2023-06-01T00:00:00.000Z''),
           (''answers'', JObj [(''role'', JStr ''Backend Developer'')])]"

definition storage_with_jd :: web_storage where
  "storage_with_jd = saveJobDescriptions (JArr [older_jd]) empty_storage"

definition demo_answers :: "(string \<times> json) list" where
  "demo_answers =
     [(''role'', JStr ''Data Analyst''), (''company'', JStr ''ACME''),
      (''skills'', JArr [JStr ''SQL'', JStr ''Python'']), (''benefits'', JArr [JStr ''Remote work'']),
      (''goals'', JStr ''Ship dashboards'')]"

definition no_network :: "http_request \<Rightarrow> http_response option" where
  "no_network request = None"

definition demo_crypto :: crypto_api where
  "demo_crypto =
     \<lparr>deriveBits = (\<lambda>password salt. Some (map (\<lambda>c. of_nat (of_char c)) password @ salt)),
      number_byte = (\<lambda>piece. 0)\<rparr>"

definition demo_salt :: "byte list" where
  "demo_salt = [0, 1, 9, 10, 15, 16, 99, 100, 127, 128, 200, 249, 250, 254, 255, 42]"

definition demo_now :: string where
  "demo_now = ''2024-01-01T00:00:00.000Z''"

definition demo_form :: signup_fields where
  "demo_form =
     \<lparr>su_first = ''Ada'', su_last = ''Lovelace'', su_username = ''ada'',
      su_email = ''ada@example.com'', su_password = ''Pw#1''\<rparr>"

definition signed_up_browser :: browser where
  "signed_up_browser =
     (case Signup_handleSubmit demo_crypto demo_salt demo_now (Inr []) demo_form fresh_browser of
        Inl e \<Rightarrow> fresh_browser
      | Inr b \<Rightarrow> b)"

definition legacy_browser :: browser where
  "legacy_browser =
     fresh_browser\<lparr>localStorage :=
       (case createTestUser demo_now empty_storage of Inl e \<Rightarrow> empty_storage | Inr ls \<Rightarrow> ls)\<rparr>"

definition demo_hash :: string where
  "demo_hash = ''507723310001090a0f1063647f80c8f9fafeff2a''"

definition demo_salt_string :: string where
  "demo_salt_string = ''0,1,9,10,15,16,99,100,127,128,200,249,250,254,255,42''"

definition read_only_legacy_browser :: browser where
  "read_only_legacy_browser =
     legacy_browser\<lparr>localStorage := (localStorage legacy_browser)\<lparr>accepts := (\<lambda>k v. False)\<rparr>\<rparr>"

definition dev_answers :: "(string \<times> json) list" where
  "dev_answers = [(''role'', JStr ''Dev'')]"

section \<open>Lemmas about the built-ins\<close>

subsection \<open>Numbers and strings print and read back\<close>

lemma digit_char_is_digit: "d < 10 \<Longrightarrow> is_digit (digit_char d)"
  by (simp add: is_digit_def digit_char_def)

lemma digit_val_digit_char: "d < 10 \<Longrightarrow> digit_val (digit_char d) = d"
  by (simp add: digit_val_def digit_char_def)

lemma digit_char_zero_iff: "d < 10 \<Longrightarrow> (digit_char d = CHR ''0'') = (d = 0)"
  by (simp add: digit_char_def char_of_eq_iff take_bit_eq_mod)

lemma show_nat_not_Nil: "show_nat n \<noteq> []"
  by (subst show_nat.simps) simp

lemma show_nat_digits: "c \<in> set (show_nat n) \<Longrightarrow> is_digit c"
proof (induction n arbitrary: c rule: show_nat.induct)
  case (1 n)
  show ?case
  proof (cases "n < 10")
    case True
    with "1.prems" show ?thesis
      by (subst (asm) show_nat.simps) (simp add: digit_char_is_digit)
  next
    case False
    with "1.prems" "1.IH" show ?thesis
      by (subst (asm) show_nat.simps) (auto simp: digit_char_is_digit)
  qed
qed

lemma read_nat_snoc: "read_nat (ds @ [c]) = 10 * read_nat ds + digit_val c"
  by (simp add: read_nat_def)

lemma read_nat_show_nat: "read_nat (show_nat n) = n"
proof (induction n rule: show_nat.induct)
  case (1 n)
  show ?case
  proof (cases "n < 10")
    case True
    then show ?thesis
      by (subst show_nat.simps) (simp add: read_nat_def digit_val_digit_char)
  next
    case False
    with "1.IH" show ?thesis
      by (subst show_nat.simps) (simp add: read_nat_snoc digit_val_digit_char)
  qed
qed

lemma hd_show_nat_zero: "(hd (show_nat n) = CHR ''0'') = (n = 0)"
proof (induction n rule: show_nat.induct)
  case (1 n)
  show ?case
  proof (cases "n < 10")
    case True
    then show ?thesis
      by (subst show_nat.simps) (simp add: digit_char_zero_iff)
  next
    case False
    then have "n div 10 \<noteq> 0" by simp
    with False "1.IH" show ?thesis
      by (subst show_nat.simps) (simp add: show_nat_not_Nil)
  qed
qed

lemma show_nat_zero: "show_nat 0 = ''0''"
  by (subst show_nat.simps) (simp add: digit_char_def char_of_eq_iff)

lemma follow_not_digit: "follow r \<Longrightarrow> r = [] \<or> \<not> is_digit (hd r)"
  by (auto simp: follow_def is_digit_def)

lemma takeWhile_show_nat:
  "follow r \<Longrightarrow> takeWhile is_digit (show_nat n @ r) = show_nat n"
  using follow_not_digit [of r]
  by (cases r) (auto simp: takeWhile_append2 show_nat_digits takeWhile_eq_all_conv)

lemma dropWhile_show_nat:
  "follow r \<Longrightarrow> dropWhile is_digit (show_nat n @ r) = r"
  using follow_not_digit [of r]
  by (cases r) (auto simp: dropWhile_append2 show_nat_digits)

lemma hd_show_nat_not_minus: "hd (show_nat n) \<noteq> CHR ''-''"
proof -
  have "hd (show_nat n) \<in> set (show_nat n)"
    by (simp add: show_nat_not_Nil)
  then have "is_digit (hd (show_nat n))"
    by (rule show_nat_digits)
  then show ?thesis
    by (auto simp: is_digit_def)
qed

lemma parse_number_show_nat:
  assumes "follow r"
  shows "parse_number (show_nat n @ r) = Some (JNum (int n), r)"
proof -
  have one: "\<not> (hd (show_nat n) = CHR ''0'' \<and> 1 < length (show_nat n))"
    by (cases "n = 0") (simp_all add: hd_show_nat_zero show_nat_zero)
  have r: "r \<noteq> [] \<Longrightarrow> hd r \<noteq> CHR ''.'' \<and> hd r \<noteq> CHR ''e'' \<and> hd r \<noteq> CHR ''E''"
    using assms by (auto simp: follow_def)
  show ?thesis
    using one r
    by (auto simp: parse_number_def Let_def show_nat_not_Nil hd_show_nat_not_minus
        takeWhile_show_nat [OF assms] dropWhile_show_nat [OF assms] read_nat_show_nat)
qed

lemma parse_number_show_int:
  assumes "follow r"
  shows "parse_number (show_int i @ r) = Some (JNum i, r)"
proof (cases "i < 0")
  case False
  then show ?thesis
    using parse_number_show_nat [OF assms, of "nat i"] by (simp add: show_int_def)
next
  case True
  have one: "\<not> (hd (show_nat (nat (- i))) = CHR ''0'' \<and> 1 < length (show_nat (nat (- i))))"
    by (cases "nat (- i) = 0") (simp_all add: hd_show_nat_zero show_nat_zero)
  have r: "r \<noteq> [] \<Longrightarrow> hd r \<noteq> CHR ''.'' \<and> hd r \<noteq> CHR ''e'' \<and> hd r \<noteq> CHR ''E''"
    using assms by (auto simp: follow_def)
  show ?thesis
    using True one r
    by (auto simp: show_int_def parse_number_def Let_def show_nat_not_Nil
        takeWhile_show_nat [OF assms] dropWhile_show_nat [OF assms] read_nat_show_nat)
qed


lemma hex_val_hex_digit: "d < 16 \<Longrightarrow> hex_val (hex_digit d) = Some d"
  by (auto simp: hex_val_def hex_digit_def Let_def)

lemma hex_val_zero: "hex_val CHR ''0'' = Some 0"
  by (simp add: hex_val_def)

lemma unicode_escape_hex:
  "unicode_escape CHR ''0'' CHR ''0'' (hex_digit (of_char c div 16)) (hex_digit (of_char c mod 16)) = Some c"
proof -
  have "(of_char c :: nat) div 16 < 16"
    using nat_of_char_less_256 [of c] by (simp add: less_mult_imp_div_less)
  then show ?thesis
    by (simp add: unicode_escape_def hex_val_zero hex_val_hex_digit)
qed

lemma parse_chars_escape_char:
  "parse_chars (escape_char c @ t) =
     (case parse_chars t of None \<Rightarrow> None | Some (s, r) \<Rightarrow> Some (c # s, r))"
  by (auto simp: escape_char_def unescape_def unicode_escape_hex)

lemma parse_chars_escaped:
  "parse_chars (concat (map escape_char s) @ CHR 0x22 # r) = Some (s, r)"
  by (induction s) (simp_all add: parse_chars_escape_char)

lemma parse_chars_quote:
  "parse_chars (tl (quote s) @ r) = Some (s, r)"
  by (simp add: quote_def parse_chars_escaped)

lemma skip_ws_Cons: "\<not> is_ws c \<Longrightarrow> skip_ws (c # cs) = c # cs"
  by (simp add: skip_ws_def)

lemma join_Cons: "xs \<noteq> [] \<Longrightarrow> join sep (x # xs) = x @ sep @ join sep xs"
  by (cases xs) simp_all

lemma length_join_ge: "x \<in> set xs \<Longrightarrow> length x \<le> length (join sep xs)"
  by (induction sep xs rule: join.induct) auto

lemma show_int_Cons:
  "\<exists>c cs. show_int i = c # cs \<and> (c = CHR ''-'' \<or> is_digit c)"
proof -
  obtain c cs where cs: "show_nat (nat \<bar>i\<bar>) = c # cs"
    using show_nat_not_Nil [of "nat \<bar>i\<bar>"] by (cases "show_nat (nat \<bar>i\<bar>)") auto
  then have "c \<in> set (show_nat (nat \<bar>i\<bar>))" by simp
  then have "is_digit c" by (rule show_nat_digits)
  with cs show ?thesis
    by (cases "i < 0") (auto simp: show_int_def abs_if)
qed

lemma starts_stringify: "starts (json_stringify v @ r)"
proof (cases v)
  case (JNum i)
  obtain c cs where "show_int i = c # cs" "c = CHR ''-'' \<or> is_digit c"
    using show_int_Cons by blast
  with JNum show ?thesis
    by (auto simp: starts_def is_ws_def is_digit_def)
qed (auto simp: starts_def is_ws_def quote_def)

lemma starts_skip: "starts s \<Longrightarrow> skip_ws s = s"
  by (cases s) (auto simp: starts_def skip_ws_def)

lemma starts_Cons: "starts s \<Longrightarrow> \<exists>c cs. s = c # cs \<and> c \<noteq> CHR '']'' \<and> c \<noteq> CHR ''}''"
  by (cases s) (auto simp: starts_def)

lemma roundtripsD:
  "roundtrips v \<Longrightarrow> follow r \<Longrightarrow> length (json_stringify v) \<le> n \<Longrightarrow>
   parse_value n (json_stringify v @ r) = Some (v, r)"
  by (simp add: roundtrips_def)

lemma follow_simps: "follow (CHR '','' # r)" "follow (CHR '']'' # r)" "follow (CHR ''}'' # r)" "follow []"
  by (simp_all add: follow_def)

lemma not_ws_simps: "\<not> is_ws CHR '',''" "\<not> is_ws CHR '']''" "\<not> is_ws CHR ''}''" "\<not> is_ws CHR '':''"
  "\<not> is_ws CHR 0x22" "\<not> is_ws CHR ''[''" "\<not> is_ws CHR ''{''"
  by (simp_all add: is_ws_def)

lemma parse_elements_stringify:
  assumes "vs \<noteq> []" and "\<And>v. v \<in> set vs \<Longrightarrow> roundtrips v"
    and "length (join '','' (map json_stringify vs)) < m"
  shows "parse_elements m (join '','' (map json_stringify vs) @ CHR '']'' # r) = Some (vs, r)"
  using assms
proof (induction vs arbitrary: m rule: list_nonempty_induct)
  case (single v)
  then obtain m' where m: "m = Suc m'" and len: "length (json_stringify v) \<le> m'"
    by (cases m) auto
  have "parse_value m' (json_stringify v @ CHR '']'' # r) = Some (v, CHR '']'' # r)"
    using single.prems(1) len by (intro roundtripsD) (simp_all add: follow_simps)
  then show ?case
    by (simp add: m skip_ws_Cons not_ws_simps)
next
  case (cons v vs)
  then obtain m' where m: "m = Suc m'"
    and len: "length (json_stringify v) + 1 + length (join '','' (map json_stringify vs)) \<le> m'"
    by (cases m) (auto simp: join_Cons)
  have v: "parse_value m' (json_stringify v @ CHR '','' # join '','' (map json_stringify vs) @ CHR '']'' # r)
      = Some (v, CHR '','' # join '','' (map json_stringify vs) @ CHR '']'' # r)"
    using cons.prems(1) len by (intro roundtripsD) (simp_all add: follow_simps)
  have rest: "parse_elements m' (join '','' (map json_stringify vs) @ CHR '']'' # r) = Some (vs, r)"
    using cons.prems(1) len by (intro cons.IH) simp_all
  show ?case
    using cons.hyps v rest by (simp add: m join_Cons skip_ws_Cons not_ws_simps)
qed

lemma parse_members_stringify:
  assumes "kvs \<noteq> []" and "\<And>kv. kv \<in> set kvs \<Longrightarrow> roundtrips (snd kv)"
    and "length (join '','' (map (\<lambda>kv. quote (fst kv) @ '':'' @ json_stringify (snd kv)) kvs)) < m"
  shows "parse_members m
           (join '','' (map (\<lambda>kv. quote (fst kv) @ '':'' @ json_stringify (snd kv)) kvs) @ CHR ''}'' # r)
         = Some (kvs, r)"
  using assms
proof (induction kvs arbitrary: m rule: list_nonempty_induct)
  case (single kv)
  obtain k v where kv: "kv = (k, v)" by (cases kv)
  from single obtain m' where m: "m = Suc m'" and len: "length (json_stringify v) \<le> m'"
    by (cases m) (auto simp: kv)
  have "parse_value m' (json_stringify v @ CHR ''}'' # r) = Some (v, CHR ''}'' # r)"
    using single.prems(1) [of kv] len by (intro roundtripsD) (simp_all add: follow_simps kv)
  moreover have "parse_chars (concat (map escape_char k) @ CHR 0x22 # CHR '':'' # json_stringify v @ CHR ''}'' # r)
      = Some (k, CHR '':'' # json_stringify v @ CHR ''}'' # r)"
    by (rule parse_chars_escaped)
  ultimately show ?case
    by (simp add: m kv quote_def skip_ws_Cons not_ws_simps)
next
  case (cons kv kvs)
  obtain k v where kv: "kv = (k, v)" by (cases kv)
  let ?rest = "join '','' (map (\<lambda>kv. quote (fst kv) @ '':'' @ json_stringify (snd kv)) kvs)"
  from cons obtain m' where m: "m = Suc m'"
    and len: "length (quote k) + 1 + length (json_stringify v) + 1 + length ?rest \<le> m'"
    by (cases m) (auto simp: join_Cons kv)
  have v: "parse_value m' (json_stringify v @ CHR '','' # ?rest @ CHR ''}'' # r)
      = Some (v, CHR '','' # ?rest @ CHR ''}'' # r)"
    using cons.prems(1) [of kv] len by (intro roundtripsD) (simp_all add: follow_simps kv)
  have k: "parse_chars (concat (map escape_char k) @ CHR 0x22 # CHR '':'' # json_stringify v @ CHR '','' # ?rest @ CHR ''}'' # r)
      = Some (k, CHR '':'' # json_stringify v @ CHR '','' # ?rest @ CHR ''}'' # r)"
    by (rule parse_chars_escaped)
  have rest: "parse_members m' (?rest @ CHR ''}'' # r) = Some (kvs, r)"
    using cons.prems(1) len by (intro cons.IH) simp_all
  show ?case
    using cons.hyps v k rest by (simp add: m kv join_Cons quote_def skip_ws_Cons not_ws_simps)
qed

lemma obj_set_fresh: "k \<notin> fst ` set kvs \<Longrightarrow> obj_set kvs k v = kvs @ [(k, v)]"
  by (induction kvs) auto

lemma foldl_obj_set_distinct:
  "distinct (map fst (acc @ kvs)) \<Longrightarrow>
   foldl (\<lambda>obj kv. obj_set obj (fst kv) (snd kv)) acc kvs = acc @ kvs"
proof (induction kvs arbitrary: acc)
  case Nil
  show ?case by simp
next
  case (Cons kv kvs)
  have "obj_set acc (fst kv) (snd kv) = acc @ [kv]"
    using Cons.prems by (intro obj_set_fresh [THEN trans]) auto
  moreover have "distinct (map fst ((acc @ [kv]) @ kvs))"
    using Cons.prems by simp
  ultimately show ?case
    using Cons.IH [of "acc @ [kv]"] by simp
qed

lemma obj_of_members_distinct: "distinct (map fst kvs) \<Longrightarrow> obj_of_members kvs = kvs"
  using foldl_obj_set_distinct [of "[]" kvs] by (simp add: obj_of_members_def)

lemma roundtrips_wf: "wf_json v \<Longrightarrow> roundtrips v"
proof (induction v)
  case JNull
  show ?case
    unfolding roundtrips_def
  proof (intro allI impI)
    fix n r assume "length (json_stringify JNull) \<le> n"
    then obtain m where "n = Suc m" by (cases n) auto
    then show "parse_value n (json_stringify JNull @ r) = Some (JNull, r)"
      by (simp add: skip_ws_Cons is_ws_def parse_literal_def)
  qed
next
  case (JBool b)
  show ?case
    unfolding roundtrips_def
  proof (intro allI impI)
    fix n r assume "length (json_stringify (JBool b)) \<le> n"
    then obtain m where "n = Suc m" by (cases n; cases b) auto
    then show "parse_value n (json_stringify (JBool b) @ r) = Some (JBool b, r)"
      by (cases b) (simp_all add: skip_ws_Cons is_ws_def parse_literal_def)
  qed
next
  case (JNum i)
  show ?case
    unfolding roundtrips_def
  proof (intro allI impI)
    fix n r assume r: "follow r" and "length (json_stringify (JNum i)) \<le> n"
    moreover obtain c cs where c: "show_int i = c # cs" "c = CHR ''-'' \<or> is_digit c"
      using show_int_Cons by blast
    ultimately obtain m where m: "n = Suc m" by (cases n) auto
    have nc: "\<not> is_ws c" "c \<noteq> CHR ''{''" "c \<noteq> CHR ''[''" "c \<noteq> CHR 0x22"
      "c \<noteq> CHR ''t''" "c \<noteq> CHR ''f''" "c \<noteq> CHR ''n''"
      using c(2) by (auto simp: is_ws_def is_digit_def)
    have "parse_value (Suc m) (c # cs @ r) = parse_number (c # cs @ r)"
      using nc by (simp add: skip_ws_Cons)
    then show "parse_value n (json_stringify (JNum i) @ r) = Some (JNum i, r)"
      using parse_number_show_int [OF r, of i] by (simp add: m c(1))
  qed
next
  case (JStr s)
  show ?case
    unfolding roundtrips_def
  proof (intro allI impI)
    fix n r assume "length (json_stringify (JStr s)) \<le> n"
    then obtain m where "n = Suc m" by (cases n) (auto simp: quote_def)
    then show "parse_value n (json_stringify (JStr s) @ r) = Some (JStr s, r)"
      by (simp add: quote_def skip_ws_Cons not_ws_simps parse_chars_escaped)
  qed
next
  case (JArr vs)
  then have IH: "\<And>v. v \<in> set vs \<Longrightarrow> roundtrips v"
    by (simp add: list_all_iff)
  show ?case
    unfolding roundtrips_def
  proof (intro allI impI)
    fix n r assume "length (json_stringify (JArr vs)) \<le> n"
    then obtain m where m: "n = Suc m" and len: "length (join '','' (map json_stringify vs)) < m"
      by (cases n) auto
    show "parse_value n (json_stringify (JArr vs) @ r) = Some (JArr vs, r)"
    proof (cases "vs = []")
      case True
      then show ?thesis by (simp add: m skip_ws_Cons not_ws_simps)
    next
      case False
      then obtain v vs' where vs: "vs = v # vs'" by (cases vs) auto
      let ?s = "join '','' (map json_stringify vs) @ CHR '']'' # r"
      have "starts ?s"
        using starts_stringify [of v] by (cases vs') (simp_all add: vs starts_def)
      then obtain d ds where d: "?s = d # ds" "skip_ws ?s = ?s" "d \<noteq> CHR '']''"
        using starts_Cons starts_skip by blast
      have "parse_elements m ?s = Some (vs, r)"
        using False IH len by (rule parse_elements_stringify)
      then show ?thesis
        using d by (simp add: m skip_ws_Cons not_ws_simps)
    qed
  qed
next
  case (JObj kvs)
  then have IH: "\<And>kv. kv \<in> set kvs \<Longrightarrow> roundtrips (snd kv)"
    and dist: "distinct (map fst kvs)"
    by (auto simp: list_all_iff snds.simps)
  show ?case
    unfolding roundtrips_def
  proof (intro allI impI)
    fix n r assume "length (json_stringify (JObj kvs)) \<le> n"
    then obtain m where m: "n = Suc m"
      and len: "length (join '','' (map (\<lambda>kv. quote (fst kv) @ '':'' @ json_stringify (snd kv)) kvs)) < m"
      by (cases n) auto
    show "parse_value n (json_stringify (JObj kvs) @ r) = Some (JObj kvs, r)"
    proof (cases "kvs = []")
      case True
      then show ?thesis by (simp add: m skip_ws_Cons not_ws_simps)
    next
      case False
      then obtain kv kvs' where kvs: "kvs = kv # kvs'" by (cases kvs) auto
      let ?s = "join '','' (map (\<lambda>kv. quote (fst kv) @ '':'' @ json_stringify (snd kv)) kvs) @ CHR ''}'' # r"
      have "starts ?s"
        by (cases kvs') (simp_all add: kvs starts_def quote_def not_ws_simps)
      then obtain d ds where d: "?s = d # ds" "skip_ws ?s = ?s" "d \<noteq> CHR ''}''"
        using starts_Cons starts_skip by blast
      have "parse_members m ?s = Some (kvs, r)"
        using False IH len by (rule parse_members_stringify)
      then show ?thesis
        using d dist by (simp add: m skip_ws_Cons not_ws_simps obj_of_members_distinct)
    qed
  qed
qed

lemma json_parse_stringify: "wf_json v \<Longrightarrow> json_parse (json_stringify v) = Some v"
  using roundtripsD [OF roundtrips_wf, of v "[]" "Suc (length (json_stringify v))"]
  by (simp add: json_parse_def follow_simps skip_ws_def)

subsection \<open>Parsed values are well formed\<close>

lemma obj_set_keys: "fst ` set (obj_set kvs k v) = insert k (fst ` set kvs)"
  by (induction kvs k v rule: obj_set.induct) auto

lemma obj_set_distinct: "distinct (map fst kvs) \<Longrightarrow> distinct (map fst (obj_set kvs k v))"
  by (induction kvs k v rule: obj_set.induct) (auto simp: obj_set_keys)

lemma obj_set_all: "P (k, v) \<Longrightarrow> list_all P kvs \<Longrightarrow> list_all P (obj_set kvs k v)"
  by (induction kvs k v rule: obj_set.induct) auto

lemma foldl_obj_set_wf:
  "distinct (map fst acc) \<Longrightarrow> list_all P acc \<Longrightarrow> list_all P kvs \<Longrightarrow>
   distinct (map fst (foldl (\<lambda>obj kv. obj_set obj (fst kv) (snd kv)) acc kvs))
   \<and> list_all P (foldl (\<lambda>obj kv. obj_set obj (fst kv) (snd kv)) acc kvs)"
proof (induction kvs arbitrary: acc)
  case Nil
  then show ?case by simp
next
  case (Cons kv kvs)
  have "distinct (map fst (obj_set acc (fst kv) (snd kv)))"
    using Cons.prems(1) by (rule obj_set_distinct)
  moreover have "list_all P (obj_set acc (fst kv) (snd kv))"
    using Cons.prems(2,3) by (intro obj_set_all) simp_all
  moreover have "list_all P kvs"
    using Cons.prems(3) by simp
  ultimately show ?case
    using Cons.IH by simp
qed

lemma wf_obj_of_members:
  "list_all (\<lambda>kv. wf_json (snd kv)) kvs \<Longrightarrow> wf_json (JObj (obj_of_members kvs))"
  using foldl_obj_set_wf [of "[]" "\<lambda>kv. wf_json (snd kv)" kvs]
  by (simp add: obj_of_members_def)

lemma parse_number_wf: "parse_number s = Some (v, r) \<Longrightarrow> wf_json v"
  by (auto simp: parse_number_def Let_def split: if_splits)

lemma parse_literal_wf: "wf_json v \<Longrightarrow> parse_literal w v s = Some (x, r) \<Longrightarrow> wf_json x"
  by (auto simp: parse_literal_def split: if_splits)

lemma parse_wf:
  "(\<forall>s v r. parse_value n s = Some (v, r) \<longrightarrow> wf_json v)
   \<and> (\<forall>s vs r. parse_elements n s = Some (vs, r) \<longrightarrow> list_all wf_json vs)
   \<and> (\<forall>s kvs r. parse_members n s = Some (kvs, r) \<longrightarrow> list_all (\<lambda>kv. wf_json (snd kv)) kvs)"
proof (induction n)
  case 0
  show ?case by simp
next
  case (Suc n)
  then have V: "\<And>s v r. parse_value n s = Some (v, r) \<Longrightarrow> wf_json v"
    and E: "\<And>s vs r. parse_elements n s = Some (vs, r) \<Longrightarrow> list_all wf_json vs"
    and M: "\<And>s kvs r. parse_members n s = Some (kvs, r) \<Longrightarrow> list_all (\<lambda>kv. wf_json (snd kv)) kvs"
    by blast+
  have "wf_json v" if "parse_value (Suc n) s = Some (v, r)" for s v r
    using that
    by (auto split: list.splits if_splits option.splits
        dest: E M parse_number_wf parse_literal_wf [rotated] intro: wf_obj_of_members)
  moreover have "list_all wf_json vs" if "parse_elements (Suc n) s = Some (vs, r)" for s vs r
    using that
    by (fastforce split: list.splits if_splits option.splits dest: V E)
  moreover have "list_all (\<lambda>kv. wf_json (snd kv)) kvs"
    if "parse_members (Suc n) s = Some (kvs, r)" for s kvs r
    using that
    by (fastforce split: list.splits if_splits option.splits dest: V M)
  ultimately show ?case by blast
qed

lemma parse_value_wf: "parse_value n s = Some (v, r) \<Longrightarrow> wf_json v"
  using parse_wf [of n] by blast

lemma json_parse_wf: "json_parse s = Some v \<Longrightarrow> wf_json v"
  by (auto simp: json_parse_def simp del: parse_value.simps
      split: option.splits if_splits dest: parse_value_wf)

subsection \<open>The defaults of the loaders\<close>


lemma json_parse_empty_array: "json_parse ''[]'' = Some (JArr [])"
  by code_simp


lemma location_hash_not_inherited:
  "is_location_hash h \<Longrightarrow> h \<notin> set object_prototype_names"
  by (auto simp: is_location_hash_def object_prototype_names_def)



subsection \<open>Saving and loading\<close>

lemma json_stringify_not_Nil: "json_stringify v \<noteq> []"
  using starts_stringify [of v "[]"] by (simp add: starts_def)

lemma or_else_stringify: "or_else (Some (json_stringify v)) d = json_stringify v"
  by (simp add: or_else_def json_stringify_not_Nil)

lemma wf_loadJobDescriptions: "wf_json (loadJobDescriptions ls)"
  by (auto simp: loadJobDescriptions_def split: option.split dest: json_parse_wf)

lemma wf_loadUsers: "wf_json (loadUsers ls)"
  by (auto simp: loadUsers_def split: option.split dest: json_parse_wf)

lemma load_saveJobDescriptions:
  "wf_json v \<Longrightarrow> accepts ls ''jobDescriptions'' (json_stringify v) \<Longrightarrow>
   loadJobDescriptions (saveJobDescriptions v ls) = v"
  by (simp add: loadJobDescriptions_def saveJobDescriptions_def setItem_def getItem_def
      or_else_stringify json_parse_stringify)

lemma load_saveUsers:
  "wf_json v \<Longrightarrow> accepts ls ''users'' (json_stringify v) \<Longrightarrow> loadUsers (saveUsers v ls) = v"
  by (simp add: loadUsers_def saveUsers_def setItem_def getItem_def
      or_else_stringify json_parse_stringify)

lemma saveUsers_refused:
  "\<not> accepts ls ''users'' (json_stringify v) \<Longrightarrow> saveUsers v ls = ls"
  by (simp add: saveUsers_def setItem_def)





subsection \<open>The payload of generateViaProxy\<close>

lemma join_field_pair:
  "join_field k (k', v') =
     (case v' of
        JArr vs \<Rightarrow> if k' = k then (k', JStr (array_join '', '' vs)) else (k', v')
      | _ \<Rightarrow> (k', v'))"
  by (cases v') (simp_all add: join_field_def)

lemma fst_join_field: "fst (join_field k kv) = fst kv"
  by (simp add: join_field_def split: json.split)

lemma map_fst_join_field: "map fst (map (join_field k) kvs) = map fst kvs"
  by (induction kvs) (simp_all add: fst_join_field)

lemma join_field_absent: "k \<notin> fst ` set kvs \<Longrightarrow> map (join_field k) kvs = kvs"
  by (induction kvs) (auto simp: join_field_def split: json.split)

lemma obj_set_join_field:
  "distinct (map fst kvs) \<Longrightarrow>
   (case map_of kvs k of
      Some (JArr vs) \<Rightarrow> obj_set kvs k (JStr (array_join '', '' vs))
    | _ \<Rightarrow> kvs) = map (join_field k) kvs"
proof (induction kvs)
  case Nil
  show ?case by simp
next
  case (Cons kv kvs)
  obtain k' v' where kv: "kv = (k', v')" by (cases kv)
  show ?case
  proof (cases "k' = k")
    case True
    then have "k \<notin> fst ` set kvs"
      using Cons.prems by (simp add: kv)
    then have "map (join_field k) kvs = kvs"
      by (rule join_field_absent)
    then show ?thesis
      using True by (cases v') (simp_all add: kv join_field_pair)
  next
    case False
    have IH: "(case map_of kvs k of
             Some (JArr vs) \<Rightarrow> obj_set kvs k (JStr (array_join '', '' vs))
           | _ \<Rightarrow> kvs) = map (join_field k) kvs"
      using Cons.prems by (intro Cons.IH) simp
    have step: "(case map_of (kv # kvs) k of
             Some (JArr vs) \<Rightarrow> obj_set (kv # kvs) k (JStr (array_join '', '' vs))
           | _ \<Rightarrow> kv # kvs)
        = kv # (case map_of kvs k of
             Some (JArr vs) \<Rightarrow> obj_set kvs k (JStr (array_join '', '' vs))
           | _ \<Rightarrow> kvs)"
      using False by (simp add: kv split: option.split json.split)
    have same: "join_field k kv = kv"
      using False by (cases v') (simp_all add: kv join_field_pair)
    show ?thesis
      by (simp only: step IH list.map same)
  qed
qed

lemma spec_answers_join_field:
  "spec_answers answers =
     map (join_field ''benefits'') (map (join_field ''skills'') (obj_delete answers ''company''))"
  by (simp add: spec_answers_def obj_delete_def join_field_def split: json.split)

lemma distinct_obj_delete: "distinct (map fst kvs) \<Longrightarrow> distinct (map fst (obj_delete kvs k))"
  by (simp add: obj_delete_def distinct_map_filter)

lemma join_if_array_last:
  assumes "distinct (map fst x)"
  shows "join_if_array k (h @ [x]) (length h) = h @ [map (join_field k) x]"
proof -
  have "join_if_array k (h @ [x]) (length h) =
      h @ [case map_of x k of
             Some (JArr vs) \<Rightarrow> obj_set x k (JStr (array_join '', '' vs))
           | _ \<Rightarrow> x]"
    by (simp add: join_if_array_def heap_get_def split: option.split json.split)
  then show ?thesis
    by (simp only: obj_set_join_field [OF assms])
qed

lemma answersForAPI_eq:
  assumes "answers < length h" and "distinct (map fst (h ! answers))"
  shows "answersForAPI h answers = (length h, h @ [spec_answers (h ! answers)])"
proof -
  let ?x = "obj_delete (h ! answers) ''company''"
  have d1: "distinct (map fst ?x)"
    using assms(2) by (rule distinct_obj_delete)
  have d2: "distinct (map fst (map (join_field ''skills'') ?x))"
    using d1 by (simp only: map_fst_join_field)
  show ?thesis
    using assms(1)
    by (simp add: answersForAPI_def Let_def heap_get_def join_if_array_last [OF d1]
        join_if_array_last [OF d2] spec_answers_join_field)
qed

subsection \<open>Salt strings and hexadecimal digests\<close>

lemma split_no_sep: "sep \<notin> set x \<Longrightarrow> split sep x = [x]"
  by (induction x) auto

lemma split_append: "sep \<notin> set x \<Longrightarrow> split sep (x @ sep # r) = x # split sep r"
  by (induction x) auto

lemma split_join:
  "xs \<noteq> [] \<Longrightarrow> (\<And>x. x \<in> set xs \<Longrightarrow> sep \<notin> set x) \<Longrightarrow> split sep (join [sep] xs) = xs"
proof (induction xs rule: list_nonempty_induct)
  case (single x)
  then show ?case by (simp add: split_no_sep)
next
  case (cons x xs)
  then show ?case by (simp add: join_Cons split_append)
qed

lemma join_not_Nil: "xs \<noteq> [] \<Longrightarrow> (\<And>x. x \<in> set xs \<Longrightarrow> x \<noteq> []) \<Longrightarrow> join sep xs \<noteq> []"
  by (induction sep xs rule: join.induct) auto

lemma comma_not_in_show_nat: "CHR '','' \<notin> set (show_nat n)"
  using show_nat_digits [of "CHR '',''" n] by (auto simp: is_digit_def)

lemma length_show_nat_byte: "n < 256 \<Longrightarrow> length (show_nat n) \<le> 3"
  by (subst show_nat.simps, subst show_nat.simps, subst show_nat.simps) auto

lemma to_byte_show_nat: "to_byte C (show_nat (unat (b :: byte))) = b"
proof -
  have "unat b < 256"
    using unsigned_less [of b, where 'a = nat] by simp
  then have "length (show_nat (unat b)) \<le> 15"
    using length_show_nat_byte [of "unat b"] by simp
  moreover have "list_all is_digit (show_nat (unat b))"
    by (simp add: list_all_iff show_nat_digits)
  ultimately show ?thesis
    by (simp add: to_byte_def show_nat_not_Nil read_nat_show_nat)
qed

lemma salt_string_roundtrip:
  assumes "salt \<noteq> []"
  shows "map (to_byte C) (split CHR '','' (join '','' (map (\<lambda>b. show_nat (unat b)) salt))) = salt"
proof -
  have "split CHR '','' (join [CHR '',''] (map (\<lambda>b. show_nat (unat b)) salt))
      = map (\<lambda>b. show_nat (unat b)) salt"
    using assms by (intro split_join) (auto simp: comma_not_in_show_nat)
  then show ?thesis
    by (simp add: to_byte_show_nat comp_def)
qed

lemma salt_string_not_Nil:
  "salt \<noteq> [] \<Longrightarrow> join '','' (map (\<lambda>b. show_nat (unat (b :: byte))) salt) \<noteq> []"
  by (intro join_not_Nil) (auto simp: show_nat_not_Nil)

lemma hex_digit_inj:
  assumes "a < 16" and "b < 16" and "hex_digit a = hex_digit b"
  shows "a = b"
proof -
  have "hex_val (hex_digit a) = hex_val (hex_digit b)"
    by (simp only: assms(3))
  then have "Some a = Some b"
    by (simp only: hex_val_hex_digit [OF assms(1)] hex_val_hex_digit [OF assms(2)])
  then show ?thesis by simp
qed

lemma hex_byte_inj: "hex_byte a = hex_byte b \<Longrightarrow> a = b"
proof -
  assume eq: "hex_byte a = hex_byte b"
  have a: "unat a < 256" and b: "unat b < 256"
    using unsigned_less [of a, where 'a = nat] unsigned_less [of b, where 'a = nat] by simp_all
  then have "unat a div 16 < 16" "unat b div 16 < 16"
    by (simp_all add: less_mult_imp_div_less)
  moreover have "unat a mod 16 < 16" "unat b mod 16 < 16"
    by simp_all
  moreover from eq have "hex_digit (unat a div 16) = hex_digit (unat b div 16)"
    "hex_digit (unat a mod 16) = hex_digit (unat b mod 16)"
    by (simp_all add: hex_byte_def)
  ultimately have "unat a div 16 = unat b div 16" "unat a mod 16 = unat b mod 16"
    by (blast intro: hex_digit_inj)+
  then have "unat a = unat b"
    by (metis div_mult_mod_eq)
  then show "a = b"
    by (simp add: word_unat_eq_iff)
qed

lemma length_hex_byte: "length (hex_byte b) = 2"
  by (simp add: hex_byte_def)

lemma hex_bytes_inj: "concat (map hex_byte xs) = concat (map hex_byte ys) \<Longrightarrow> xs = ys"
proof (induction xs arbitrary: ys)
  case Nil
  then show ?case by (cases ys) (simp_all add: hex_byte_def)
next
  case (Cons x xs)
  then obtain y ys' where ys: "ys = y # ys'"
    by (cases ys) (simp_all add: hex_byte_def)
  from Cons.prems have "hex_byte x @ concat (map hex_byte xs) = hex_byte y @ concat (map hex_byte ys')"
    by (simp add: ys)
  then have "hex_byte x = hex_byte y" "concat (map hex_byte xs) = concat (map hex_byte ys')"
    by (simp_all add: append_eq_append_conv length_hex_byte)
  then show ?case
    using Cons.IH hex_byte_inj by (simp add: ys)
qed

subsection \<open>User records\<close>

lemma map_of_obj_set: "map_of (obj_set kvs k v) k' = (if k' = k then Some v else map_of kvs k')"
  by (induction kvs k v rule: obj_set.induct) auto

lemma map_of_obj_delete: "map_of (obj_delete kvs k) k' = (if k' = k then None else map_of kvs k')"
  by (induction kvs) (auto simp: obj_delete_def)

lemma map_of_upgraded:
  "map_of (upgraded user h s) k =
     (if k = ''password'' then None
      else if k = ''salt'' then Some (JStr s)
      else if k = ''hashedPassword'' then Some (JStr h)
      else map_of user k)"
  by (simp add: upgraded_def map_of_obj_delete map_of_obj_set)

lemma hashed_only_upgraded: "hashed_only (JObj (upgraded user h s)) h s"
  by (simp add: hashed_only_def get_prop_def map_of_upgraded)

lemma hashed_only_new_user: "hashed_only (new_user form h s now) h s"
  by (simp add: hashed_only_def get_prop_def new_user_def)

lemma wf_new_user: "wf_json (new_user form h s now)"
  by (simp add: new_user_def)

lemma list_all_obj_delete: "list_all P kvs \<Longrightarrow> list_all P (obj_delete kvs k)"
  by (simp add: obj_delete_def list_all_iff)

lemma wf_upgraded:
  assumes "wf_json (JObj user)"
  shows "wf_json (JObj (upgraded user h s))"
proof -
  let ?P = "\<lambda>kv. wf_json (snd kv)"
  have d: "distinct (map fst user)" and a: "list_all ?P user"
    using assms by simp_all
  have "distinct (map fst (obj_set (obj_set user ''hashedPassword'' (JStr h)) ''salt'' (JStr s)))"
    using d by (intro obj_set_distinct)
  then have "distinct (map fst (upgraded user h s))"
    unfolding upgraded_def by (rule distinct_obj_delete)
  moreover have "list_all ?P (obj_set (obj_set user ''hashedPassword'' (JStr h)) ''salt'' (JStr s))"
    using a by (intro obj_set_all) simp_all
  then have "list_all ?P (upgraded user h s)"
    unfolding upgraded_def by (rule list_all_obj_delete)
  ultimately show ?thesis by simp
qed

lemma wf_list_update:
  "wf_json (JArr users) \<Longrightarrow> wf_json u \<Longrightarrow> wf_json (JArr (users[i := u]))"
  by (auto simp: list_all_iff dest: set_update_subset_insert [THEN subsetD])

lemma wf_nth: "wf_json (JArr users) \<Longrightarrow> i < length users \<Longrightarrow> wf_json (users ! i)"
  by (simp add: list_all_length)

lemma find_user_Some:
  "find_user target users = Inr (Some u) \<Longrightarrow>
   \<exists>i. i < length users \<and> users ! i = u \<and> findIndex_user target users = Inr (Some i)
       \<and> username_lower u = Some target"
proof (induction users)
  case Nil
  then show ?case by simp
next
  case (Cons a users)
  then obtain n where n: "username_lower a = Some n"
    by (auto split: option.splits)
  show ?case
  proof (cases "n = target")
    case True
    with Cons.prems n show ?thesis by auto
  next
    case False
    with Cons.prems n have "find_user target users = Inr (Some u)" by simp
    from Cons.IH [OF this] obtain i where "i < length users" "users ! i = u"
      "findIndex_user target users = Inr (Some i)" "username_lower u = Some target"
      by blast
    with False n show ?thesis
      by (intro exI [of _ "Suc i"]) simp
  qed
qed

lemma username_lower_upgraded:
  "username_lower (JObj (upgraded user h s)) = username_lower (JObj user)"
  by (simp add: username_lower_def get_prop_def map_of_upgraded)

lemma username_lower_object: "username_lower u = Some n \<Longrightarrow> \<exists>user. u = JObj user"
  by (cases u) (simp_all add: username_lower_def get_prop_def)

lemma saveUsers_changed:
  assumes "saveUsers v ls \<noteq> ls" and "wf_json v"
  shows "loadUsers (saveUsers v ls) = v"
proof -
  have "accepts ls ''users'' (json_stringify v)"
    using assms(1) saveUsers_refused by blast
  with assms(2) show ?thesis by (rule load_saveUsers)
qed

lemma Signup_persists_hashed:
  assumes "Signup_handleSubmit C rnd now validation form b = Inr b'"
    and "localStorage b' \<noteq> localStorage b"
  shows "\<exists>users h s. loadUsers (localStorage b) = JArr users
           \<and> hashPassword C rnd (su_password form) None = Inr (h, s)
           \<and> loadUsers (localStorage b') = JArr (users @ [new_user form h s now])
           \<and> hashed_only (new_user form h s now) h s"
proof -
  from assms obtain users h s where users: "loadUsers (localStorage b) = JArr users"
    and hs: "hashPassword C rnd (su_password form) None = Inr (h, s)"
    and ls': "localStorage b' = saveUsers (JArr (users @ [new_user form h s now])) (localStorage b)"
    by (auto simp: Signup_handleSubmit_def showNotification_def
        split: sum.splits if_splits prod.splits json.splits)
  have "wf_json (JArr users)"
    using wf_loadUsers [of "localStorage b"] users by simp
  then have "wf_json (JArr (users @ [new_user form h s now]))"
    by (simp add: wf_new_user)
  with assms(2) have "loadUsers (localStorage b') = JArr (users @ [new_user form h s now])"
    unfolding ls' by (intro saveUsers_changed) simp_all
  with users hs show ?thesis
    using hashed_only_new_user by blast
qed

lemma findIndex_user_bound: "findIndex_user target users = Inr (Some i) \<Longrightarrow> i < length users"
proof (induction users arbitrary: i)
  case Nil
  then show ?case by simp
next
  case (Cons a users)
  then show ?case
    by (auto split: option.splits if_splits sum.splits)
qed

lemma upgrade_user_persists:
  assumes "upgrade_user C rnd password user ls = (user', ls')" and "ls' \<noteq> ls"
    and "loadUsers ls = JArr users" and "findIndex_user target users = Inr (Some i)"
    and "username_lower (JObj user) = Some target" and "wf_json (JObj user)"
  shows "\<exists>h s. hashPassword C rnd password None = Inr (h, s)
           \<and> loadUsers ls' = JArr (users[i := JObj (upgraded user h s)])"
proof -
  from assms(1-5) obtain h s where hs: "hashPassword C rnd password None = Inr (h, s)"
    and ls': "ls' = saveUsers (JArr (users[i := JObj (upgraded user h s)])) ls"
    by (auto simp: upgrade_user_def Let_def username_lower_upgraded
        split: sum.splits prod.splits)
  have "wf_json (JArr users)"
    using wf_loadUsers [of ls] assms(3) by simp
  then have "wf_json (JArr (users[i := JObj (upgraded user h s)]))"
    using wf_upgraded [OF assms(6)] by (rule wf_list_update)
  with assms(2) have "loadUsers ls' = JArr (users[i := JObj (upgraded user h s)])"
    unfolding ls' by (intro saveUsers_changed) simp_all
  with hs show ?thesis by blast
qed

lemma localStorage_showNotification [simp]:
  "localStorage (showNotification message ntype b) = localStorage b"
  by (simp add: showNotification_def)

lemma localStorage_login_finish [simp]:
  "localStorage (login_finish isValidPassword user b) = localStorage b"
  by (simp add: login_finish_def)

lemma login_try_persists:
  assumes "login_try C rnd username password b = Inr b'"
    and "localStorage b' \<noteq> localStorage b"
  shows "\<exists>users i user h s. loadUsers (localStorage b) = JArr users
           \<and> i < length users \<and> users ! i = JObj user
           \<and> map_of user ''password'' = Some (JStr password)
           \<and> hashPassword C rnd password None = Inr (h, s)
           \<and> loadUsers (localStorage b') = JArr (users[i := JObj (upgraded user h s)])"
proof -
  from assms(1) obtain users where users: "loadUsers (localStorage b) = JArr users"
    by (auto simp: login_try_def split: json.splits)
  with assms obtain u where u: "find_user (toLowerCase username) users = Inr (Some u)"
    by (auto simp: login_try_def split: sum.splits option.splits)
  from find_user_Some [OF u] obtain i where i: "i < length users" "users ! i = u"
    "findIndex_user (toLowerCase username) users = Inr (Some i)"
    "username_lower u = Some (toLowerCase username)"
    by blast
  from username_lower_object [OF i(4)] obtain user where user: "u = JObj user"
    by blast
  have wf: "wf_json (JObj user)"
    using wf_nth [of users i] wf_loadUsers [of "localStorage b"] users i(1,2) user by simp
  from assms users u user obtain user' ls'
    where pw: "map_of user ''password'' = Some (JStr password)"
      and up: "upgrade_user C rnd password user (localStorage b) = (user', ls')"
      and b': "localStorage b' = ls'"
    by (auto simp: login_try_def split: if_splits prod.splits)
  from assms(2) b' have "ls' \<noteq> localStorage b" by simp
  from upgrade_user_persists [OF up this users i(3) i(4) [unfolded user] wf]
  obtain h s where "hashPassword C rnd password None = Inr (h, s)"
    "loadUsers ls' = JArr (users[i := JObj (upgraded user h s)])"
    by blast
  with users i(1,2) user pw b' show ?thesis
    by (intro exI [of _ users] exI [of _ i] exI [of _ user] exI [of _ h] exI [of _ s]) simp
qed

lemma Login_persists_hashed:
  assumes "localStorage (Login_handleSubmit C rnd username_value password b) \<noteq> localStorage b"
  shows "\<exists>users i user h s. loadUsers (localStorage b) = JArr users
           \<and> i < length users \<and> users ! i = JObj user
           \<and> map_of user ''password'' = Some (JStr password)
           \<and> hashPassword C rnd password None = Inr (h, s)
           \<and> loadUsers (localStorage (Login_handleSubmit C rnd username_value password b))
               = JArr (users[i := JObj (upgraded user h s)])
           \<and> hashed_only (JObj (upgraded user h s)) h s"
proof -
  from assms obtain b' where attempt: "login_try C rnd (js_trim username_value) password b = Inr b'"
    and b': "Login_handleSubmit C rnd username_value password b = b'"
    by (auto simp: Login_handleSubmit_def Let_def split: if_splits sum.splits)
  from assms b' have "localStorage b' \<noteq> localStorage b" by simp
  from login_try_persists [OF attempt this] show ?thesis
    unfolding b' using hashed_only_upgraded by blast
qed
section \<open>Properties of the application\<close>

text \<open>
  C1. A record that signup persists has \<open>hashedPassword\<close> and \<open>salt\<close>, the output of
  \<open>hashPassword\<close> for the entered password, and no \<open>password\<close> field; it is appended
  to the stored users. When a login changes the stored users, it replaces one legacy record,
  whose plain-text \<open>password\<close> matched, by the same record with \<open>hashedPassword\<close> and
  \<open>salt\<close> set and \<open>password\<close> deleted, and leaves every other record as it was.
\<close>

theorem persisted_credentials_hashed:
  "(Signup_handleSubmit C rnd now validation form b = Inr b' \<longrightarrow>
    localStorage b' \<noteq> localStorage b \<longrightarrow>
      (\<exists>users h s. loadUsers (localStorage b) = JArr users
         \<and> hashPassword C rnd (su_password form) None = Inr (h, s)
         \<and> loadUsers (localStorage b') = JArr (users @ [new_user form h s now])
         \<and> hashed_only (new_user form h s now) h s))
   \<and> (localStorage (Login_handleSubmit C rnd username_value password b) \<noteq> localStorage b \<longrightarrow>
      (\<exists>users i user h s. loadUsers (localStorage b) = JArr users
         \<and> i < length users \<and> users ! i = JObj user
         \<and> map_of user ''password'' = Some (JStr password)
         \<and> hashPassword C rnd password None = Inr (h, s)
         \<and> loadUsers (localStorage (Login_handleSubmit C rnd username_value password b))
             = JArr (users[i := JObj (upgraded user h s)])
         \<and> hashed_only (JObj (upgraded user h s)) h s))"
  using Signup_persists_hashed [of C rnd now validation form b b']
    Login_persists_hashed [of C rnd username_value password b]
  by blast

theorem persisted_credentials_hashed_witness:
  "Signup_handleSubmit demo_crypto demo_salt demo_now (Inr []) demo_form fresh_browser
     = Inr signed_up_browser
   \<and> localStorage signed_up_browser \<noteq> localStorage fresh_browser
   \<and> loadUsers (localStorage signed_up_browser)
       = JArr [new_user demo_form demo_hash demo_salt_string demo_now]
   \<and> hashed_only (new_user demo_form demo_hash demo_salt_string demo_now) demo_hash demo_salt_string
   \<and> localStorage (Login_handleSubmit demo_crypto demo_salt ''dheerajkukkadapu'' ''password123''
                      legacy_browser) \<noteq> localStorage legacy_browser
   \<and> (\<exists>h s. loadUsers (localStorage (Login_handleSubmit demo_crypto demo_salt ''dheerajkukkadapu''
                                         ''password123'' legacy_browser))
               = JArr [JObj (upgraded [(''username'', JStr ''dheerajkukkadapu''),
                                        (''email'', JStr ''test@example.com''),
                                        (''first'', JStr ''Dheeraj''),
                                        (''last'', JStr ''Kukkadapu''),
                                        (''password'', JStr ''password123''),
                                        (''createdAt'', JStr demo_now)] h s)])"
proof -
  let ?login = "Login_handleSubmit demo_crypto demo_salt ''dheerajkukkadapu'' ''password123'' legacy_browser"
  have "\<exists>b. Signup_handleSubmit demo_crypto demo_salt demo_now (Inr []) demo_form fresh_browser = Inr b"
    by (simp add: Signup_handleSubmit_def)
  then have s1: "Signup_handleSubmit demo_crypto demo_salt demo_now (Inr []) demo_form fresh_browser
      = Inr signed_up_browser"
    by (auto simp: signed_up_browser_def)
  have "getItem (localStorage signed_up_browser) ''users'' \<noteq> getItem (localStorage fresh_browser) ''users''"
    by code_simp
  then have s2: "localStorage signed_up_browser \<noteq> localStorage fresh_browser"
    by auto
  have l0: "loadUsers (localStorage fresh_browser) = JArr []"
    by code_simp
  have hp: "hashPassword demo_crypto demo_salt (su_password demo_form) None
      = Inr (demo_hash, demo_salt_string)"
    by code_simp
  from persisted_credentials_hashed [where C = demo_crypto and rnd = demo_salt and now = demo_now
      and validation = "Inr []" and form = demo_form and b = fresh_browser
      and b' = signed_up_browser] s1 s2
  obtain users h s where "loadUsers (localStorage fresh_browser) = JArr users"
    "hashPassword demo_crypto demo_salt (su_password demo_form) None = Inr (h, s)"
    "loadUsers (localStorage signed_up_browser) = JArr (users @ [new_user demo_form h s demo_now])"
    "hashed_only (new_user demo_form h s demo_now) h s"
    by blast
  with l0 hp have s3: "loadUsers (localStorage signed_up_browser)
       = JArr [new_user demo_form demo_hash demo_salt_string demo_now]"
    and s4: "hashed_only (new_user demo_form demo_hash demo_salt_string demo_now) demo_hash demo_salt_string"
    by simp_all
  have "getItem (localStorage ?login) ''users'' \<noteq> getItem (localStorage legacy_browser) ''users''"
    by code_simp
  then have g1: "localStorage ?login \<noteq> localStorage legacy_browser"
    by auto
  have l1: "loadUsers (localStorage legacy_browser) = JArr [testUser demo_now]"
    by code_simp
  from persisted_credentials_hashed [where C = demo_crypto and rnd = demo_salt
      and username_value = "''dheerajkukkadapu''" and password = "''password123''"
      and b = legacy_browser] g1
  obtain users i user h s where u: "loadUsers (localStorage legacy_browser) = JArr users"
    "i < length users" "users ! i = JObj user"
    "loadUsers (localStorage ?login) = JArr (users[i := JObj (upgraded user h s)])"
    by blast
  from u(1) l1 have users: "users = [testUser demo_now]" by simp
  with u(2) have "i = 0" by simp
  with u(3,4) users have "loadUsers (localStorage ?login)
      = JArr [JObj (upgraded [(''username'', JStr ''dheerajkukkadapu''),
                               (''email'', JStr ''test@example.com''),
                               (''first'', JStr ''Dheeraj''),
                               (''last'', JStr ''Kukkadapu''),
                               (''password'', JStr ''password123''),
                               (''createdAt'', JStr demo_now)] h s)]"
    by (simp add: testUser_def)
  with s1 s2 s3 s4 g1 show ?thesis by blast
qed

text \<open>
  The debug utility \<open>createTestUser\<close> persists a record with the plain-text password
  \<open>password123\<close> and neither \<open>hashedPassword\<close> nor \<open>salt\<close>. A login with that
  password succeeds, and when the browser refuses the write of the upgraded record the
  stored record is still the plain-text one.
\<close>

theorem createTestUser_stores_plain_text:
  "(case createTestUser demo_now empty_storage of Inl e \<Rightarrow> JNull | Inr ls \<Rightarrow> loadUsers ls)
     = JArr [testUser demo_now]
   \<and> get_prop (testUser demo_now) ''password'' = Some (JStr ''password123'')
   \<and> get_prop (testUser demo_now) ''hashedPassword'' = None
   \<and> get_prop (testUser demo_now) ''salt'' = None
   \<and> notifications (Login_handleSubmit demo_crypto demo_salt ''dheerajkukkadapu'' ''password123''
                       read_only_legacy_browser) = [(''Welcome back, Dheeraj!'', ''success'')]
   \<and> loadUsers (localStorage (Login_handleSubmit demo_crypto demo_salt ''dheerajkukkadapu''
                                 ''password123'' read_only_legacy_browser))
       = JArr [testUser demo_now]"
  by code_simp




text \<open>
  C3. The body of the request to \<open>/api/generate\<close> is the JSON text of an object with two
  members: \<open>answers\<close>, which is the input answers without \<open>company\<close>, with
  \<open>skills\<close> and \<open>benefits\<close> joined by \<open>", "\<close> when they are arrays and every
  other field unchanged, and \<open>model\<close>, which is \<open>gpt-4o-mini\<close>. Every object that
  was in the heap before the call, the caller's answers among them, is unchanged after it.
\<close>

theorem generateViaProxy_request:
  assumes "answers < length h" and "distinct (map fst (h ! answers))"
  shows "body (fst (fst (generateViaProxy fetch ls answers h)))
           = json_stringify
               (JObj [(''answers'', JObj (spec_answers (h ! answers))),
                      (''model'', JStr ''gpt-4o-mini'')])
         \<and> url (fst (fst (generateViaProxy fetch ls answers h))) = getProxyBase ls @ ''/api/generate''
         \<and> take (length h) (snd (generateViaProxy fetch ls answers h)) = h
         \<and> snd (generateViaProxy fetch ls answers h) ! answers = h ! answers"
  using assms(1)
  by (simp add: generateViaProxy_def answersForAPI_eq [OF assms] heap_get_def getModel_def
      Let_def nth_append)

theorem generateViaProxy_request_witness:
  "0 < length [demo_answers] \<and> distinct (map fst ([demo_answers] ! 0))
   \<and> body (fst (fst (generateViaProxy no_network empty_storage 0 [demo_answers])))
       = json_stringify
           (JObj [(''answers'',
                   JObj [(''role'', JStr ''Data Analyst''), (''skills'', JStr ''SQL, Python''),
                         (''benefits'', JStr ''Remote work''), (''goals'', JStr ''Ship dashboards'')]),
                  (''model'', JStr ''gpt-4o-mini'')])
   \<and> snd (generateViaProxy no_network empty_storage 0 [demo_answers]) ! 0 = demo_answers"
proof -
  have l: "0 < length [demo_answers]" by simp
  have d: "distinct (map fst ([demo_answers] ! 0))" by (simp add: demo_answers_def)
  have s: "spec_answers demo_answers =
      [(''role'', JStr ''Data Analyst''), (''skills'', JStr ''SQL, Python''),
       (''benefits'', JStr ''Remote work''), (''goals'', JStr ''Ship dashboards'')]"
    by (simp add: spec_answers_def demo_answers_def array_join_def)
  show ?thesis
    using generateViaProxy_request [OF l d, of no_network empty_storage] l d s by simp
qed

text \<open>
  For the answers \<open>{role: "Dev"}\<close> the body is the text of
  \<open>{answers: {role: "Dev"}, model: "gpt-4o-mini"}\<close>, which is not the text of the
  answers themselves.
\<close>

theorem generateViaProxy_body_is_wrapped:
  "body (fst (fst (generateViaProxy no_network empty_storage 0 [dev_answers])))
     = ''{'' @ dq ''answers'' @ '':{'' @ dq ''role'' @ '':'' @ dq ''Dev'' @ ''},'' @ dq ''model'' @ '':''
       @ dq ''gpt-4o-mini'' @ ''}''
   \<and> json_stringify (JObj (spec_answers dev_answers))
     = ''{'' @ dq ''role'' @ '':'' @ dq ''Dev'' @ ''}''
   \<and> body (fst (fst (generateViaProxy no_network empty_storage 0 [dev_answers])))
     \<noteq> json_stringify (JObj (spec_answers dev_answers))"
  by code_simp

text \<open>
  C4. When the stored job descriptions are the list \<open>L\<close> and the browser accepts the
  write, \<open>saveJobDescription jd\<close> leaves \<open>jd\<close> followed by \<open>L\<close> in the storage, so a
  later \<open>loadJobDescriptions\<close> returns the new entry at index 0 and the earlier entries
  after it, unchanged and in order. When the browser refuses the write, the storage is as it
  was.
\<close>

theorem saveJobDescription_prepends:
  assumes "loadJobDescriptions ls = JArr L" and "wf_json jd"
  shows "(accepts ls ''jobDescriptions'' (json_stringify (JArr (jd # L))) \<longrightarrow>
           (\<exists>ls'. saveJobDescription jd ls = Inr ls' \<and> loadJobDescriptions ls' = JArr (jd # L)))
         \<and> (\<not> accepts ls ''jobDescriptions'' (json_stringify (JArr (jd # L))) \<longrightarrow>
           saveJobDescription jd ls = Inr ls)"
proof -
  have "wf_json (JArr L)"
    using wf_loadJobDescriptions [of ls] assms(1) by simp
  then have wf: "wf_json (JArr (jd # L))"
    using assms(2) by simp
  have "loadJobDescriptions (saveJobDescriptions (JArr (jd # L)) ls) = JArr (jd # L)"
    if "accepts ls ''jobDescriptions'' (json_stringify (JArr (jd # L)))"
    using wf that by (rule load_saveJobDescriptions)
  moreover have "saveJobDescriptions (JArr (jd # L)) ls = ls"
    if "\<not> accepts ls ''jobDescriptions'' (json_stringify (JArr (jd # L)))"
    using that by (simp add: saveJobDescriptions_def setItem_def)
  ultimately show ?thesis
    using assms(1) by (simp add: saveJobDescription_def)
qed

theorem saveJobDescription_prepends_witness:
  "loadJobDescriptions storage_with_jd = JArr [older_jd] \<and> wf_json demo_jd
   \<and> accepts storage_with_jd ''jobDescriptions'' (json_stringify (JArr [demo_jd, older_jd]))
   \<and> (\<exists>ls'. saveJobDescription demo_jd storage_with_jd = Inr ls'
            \<and> loadJobDescriptions ls' = JArr [demo_jd, older_jd])
   \<and> demo_jd \<noteq> older_jd"
proof -
  have wo: "wf_json (JArr [older_jd])"
    by (simp add: older_jd_def)
  have l: "loadJobDescriptions storage_with_jd = JArr [older_jd]"
    unfolding storage_with_jd_def
    using wo by (rule load_saveJobDescriptions) (simp add: empty_storage_def)
  have w: "wf_json demo_jd"
    by (simp add: demo_jd_def)
  have a: "accepts storage_with_jd ''jobDescriptions'' (json_stringify (JArr [demo_jd, older_jd]))"
    by (simp add: storage_with_jd_def saveJobDescriptions_def setItem_def empty_storage_def)
  have d: "demo_jd \<noteq> older_jd"
    by (simp add: demo_jd_def older_jd_def)
  show ?thesis
    using saveJobDescription_prepends [OF l w] l w a d by blast
qed

text \<open>
  With a storage that refuses every write, \<open>saveJobDescription\<close> returns normally and a
  later \<open>loadJobDescriptions\<close> still gives the empty list.
\<close>

theorem saveJobDescription_refused_write:
  "loadJobDescriptions full_storage = JArr []
   \<and> saveJobDescription demo_jd full_storage = Inr full_storage
   \<and> loadJobDescriptions full_storage \<noteq> JArr [demo_jd]"
  by (simp add: saveJobDescription_def saveJobDescriptions_def loadJobDescriptions_def
      full_storage_def getItem_def setItem_def or_else_def json_parse_empty_array)


text \<open>
  C6. The questionnaire has 13 questions in a fixed order. When the answer to
  \<open>hireType\<close> is exactly the string \<open>Contract\<close> the filtered list is all of them; for any
  other answer, or none, it is the other 12 in the same order, without \<open>duration\<close>.
\<close>

theorem questionnaire_filter:
  "map key questions = question_keys
   \<and> length questions = 13
   \<and> getFilteredQuestions answers =
       (if map_of answers ''hireType'' = Some (JStr ''Contract'') then questions
        else filter (\<lambda>question. key question \<noteq> ''duration'') questions)
   \<and> map key (getFilteredQuestions answers) =
       (if map_of answers ''hireType'' = Some (JStr ''Contract'') then question_keys
        else remove1 ''duration'' question_keys)
   \<and> length (getFilteredQuestions answers) =
       (if map_of answers ''hireType'' = Some (JStr ''Contract'') then 13 else 12)"
  by (simp add: getFilteredQuestions_def questions_def question_keys_def)

text \<open>
  C7. The router looks the current hash up in the route table: the empty hash and \<open>#/\<close>
  give the Home view, each registered route gives the view registered for it (for a
  workspace route, the guarded view), and every other value of \<open>location.hash\<close> gives the
  Home view. What is rendered is the content of that view.
\<close>

theorem router_lookup:
  "route_view V [] = Some (Home V)
   \<and> route_view V ''#/'' = Some (Home V)
   \<and> route_view V ''#/login'' = Some (Login V)
   \<and> route_view V ''#/signup'' = Some (Signup V)
   \<and> route_view V ''#/sales'' = Some (createRouteGuard V (Sales V))
   \<and> route_view V ''#/jd-builder'' = Some (createRouteGuard V (JDBuilder V))
   \<and> route_view V ''#/jd-builder/questions'' = Some (createRouteGuard V (JDQuestions V))
   \<and> route_view V ''#/jd-view'' = Some (createRouteGuard V (JDView V))
   \<and> route_view V ''#/sourcing'' = Some (createRouteGuard V (Sourcing V))
   \<and> route_view V ''#/recruitment'' = Some (createRouteGuard V (Recruitment V))
   \<and> route_view V ''#/settings'' = Some (createRouteGuard V (Settings V))
   \<and> (is_location_hash h \<longrightarrow> h \<notin> fst ` set (routes V) \<longrightarrow> route_view V h = Some (Home V))
   \<and> (is_location_hash (location_hash b) \<longrightarrow>
        render V True b =
          (case (case map_of (routes V) (location_hash b) of None \<Rightarrow> Home V | Some view \<Rightarrow> view) b of
             (None, b') \<Rightarrow> (ErrorCard, b')
           | (Some content, b') \<Rightarrow> (Page content, b')))"
proof -
  have unknown: "route_view V h = Some (Home V)"
    if "is_location_hash h" "h \<notin> fst ` set (routes V)" for h
  proof -
    have "map_of (routes V) h = None"
      using that(2) by (simp add: map_of_eq_None_iff)
    then show ?thesis
      using location_hash_not_inherited [OF that(1)] by (simp add: route_view_def)
  qed
  have known: "route_view V h = Some (case map_of (routes V) h of None \<Rightarrow> Home V | Some view \<Rightarrow> view)"
    if "is_location_hash h" for h
    using location_hash_not_inherited [OF that] by (simp add: route_view_def split: option.split)
  have shown: "render V True b =
          (case (case map_of (routes V) (location_hash b) of None \<Rightarrow> Home V | Some view \<Rightarrow> view) b of
             (None, b') \<Rightarrow> (ErrorCard, b')
           | (Some content, b') \<Rightarrow> (Page content, b'))"
    if "is_location_hash (location_hash b)"
    using known [OF that] by (simp add: render_def)
  show ?thesis
    using unknown shown by (simp add: route_view_def routes_def)
qed

theorem router_lookup_witness:
  "is_location_hash ''#/nowhere'' \<and> ''#/nowhere'' \<notin> fst ` set (routes demo_views)
   \<and> route_view demo_views ''#/nowhere'' = Some (Home demo_views)
   \<and> is_location_hash (location_hash (fresh_browser\<lparr>location_hash := ''#/nowhere''\<rparr>))
   \<and> render demo_views True (fresh_browser\<lparr>location_hash := ''#/nowhere''\<rparr>)
       = (Page ''Home'', fresh_browser\<lparr>location_hash := ''#/nowhere''\<rparr>)"
  using router_lookup [of demo_views "''#/nowhere''" "fresh_browser\<lparr>location_hash := ''#/nowhere''\<rparr>"]
  by (simp add: is_location_hash_def routes_def demo_views_def)

text \<open>
  C8. When \<open>hashPassword\<close> of a password with a fresh 16-byte salt succeeds with
  \<open>{hashedPassword, salt}\<close>, splitting the salt string at the commas and reading the
  numbers gives the salt bytes back, \<open>verifyPassword\<close> of the same password against
  that pair is true, and \<open>verifyPassword\<close> of any candidate is true exactly when the
  candidate's derived bits under that salt are those of the password: two different digests
  never print to the same hexadecimal text.
\<close>

theorem hash_verify_roundtrip:
  assumes "length rnd = 16" and "hashPassword C rnd password None = Inr (h, s)"
  shows "map (to_byte C) (split CHR '','' s) = rnd
         \<and> verifyPassword C rnd' password (Some (JStr h)) (Some (JStr s))
         \<and> verifyPassword C rnd' candidate (Some (JStr h)) (Some (JStr s))
             = (deriveBits C candidate rnd = deriveBits C password rnd)"
proof -
  have rnd: "rnd \<noteq> []"
    using assms(1) by auto
  from assms(2) obtain bits where bits: "deriveBits C password rnd = Some bits"
    and h: "h = concat (map hex_byte bits)"
    and s: "s = join '','' (map (\<lambda>b. show_nat (unat b)) rnd)"
    by (auto simp: hashPassword_def truthy_opt_def derive_def split: option.splits)
  have salt: "map (to_byte C) (split CHR '','' s) = rnd"
    unfolding s using rnd by (rule salt_string_roundtrip)
  have truthy: "truthy_opt (Some (JStr s))"
    using salt_string_not_Nil [OF rnd] by (simp add: truthy_opt_def s)
  have again: "hashPassword C rnd' p (Some (JStr s)) = derive C p rnd" for p
    using truthy salt by (simp add: hashPassword_def)
  have "verifyPassword C rnd' p (Some (JStr h)) (Some (JStr s)) = (deriveBits C p rnd = Some bits)" for p
    by (auto simp: verifyPassword_def again derive_def h split: option.split dest: hex_bytes_inj)
  then show ?thesis
    using salt bits by simp
qed

theorem hash_verify_roundtrip_witness:
  "length demo_salt = 16
   \<and> hashPassword demo_crypto demo_salt ''Pw#1'' None
       = Inr (''507723310001090a0f1063647f80c8f9fafeff2a'', ''0,1,9,10,15,16,99,100,127,128,200,249,250,254,255,42'')
   \<and> map (to_byte demo_crypto) (split CHR '','' ''0,1,9,10,15,16,99,100,127,128,200,249,250,254,255,42'')
       = demo_salt
   \<and> verifyPassword demo_crypto [] ''Pw#1''
        (Some (JStr ''507723310001090a0f1063647f80c8f9fafeff2a''))
        (Some (JStr ''0,1,9,10,15,16,99,100,127,128,200,249,250,254,255,42''))
   \<and> \<not> verifyPassword demo_crypto [] ''pw#1''
        (Some (JStr ''507723310001090a0f1063647f80c8f9fafeff2a''))
        (Some (JStr ''0,1,9,10,15,16,99,100,127,128,200,249,250,254,255,42''))"
proof -
  have l: "length demo_salt = 16"
    by (simp add: demo_salt_def)
  have h: "hashPassword demo_crypto demo_salt ''Pw#1'' None
       = Inr (''507723310001090a0f1063647f80c8f9fafeff2a'', ''0,1,9,10,15,16,99,100,127,128,200,249,250,254,255,42'')"
    by code_simp
  have d: "deriveBits demo_crypto ''pw#1'' demo_salt \<noteq> deriveBits demo_crypto ''Pw#1'' demo_salt"
    by (simp add: demo_crypto_def)
  show ?thesis
    using hash_verify_roundtrip [OF l h, of "[]" "''Pw#1''"]
      hash_verify_roundtrip [OF l h, of "[]" "''pw#1''"] l h d
    by simp
qed



text \<open>
  C10. The limiter is one comparison against one shared timestamp: a request is rejected
  exactly when the clock is less than 750 ms past \<open>last\<close>; an accepted request sets
  \<open>last\<close> to its arrival time and a rejected one leaves it alone; and neither the verdict
  nor the new timestamp depends on which client or endpoint the request is for.
\<close>

theorem rate_limit_global_timestamp:
  "(fst (rate_limit now req last_t) = TooManyRequests) = (now - last_t < 750)
   \<and> snd (rate_limit now req last_t) = (if now - last_t < 750 then last_t else now)
   \<and> rate_limit now req last_t = rate_limit now req' last_t
   \<and> serve last0 (map (\<lambda>(t, r). (t, f r)) rs) = serve last0 rs"
proof -
  have "serve l (map (\<lambda>(t, r). (t, f r)) rs) = serve l rs" for l
  proof (induction rs arbitrary: l)
    case Nil
    show ?case by simp
  next
    case (Cons a rs)
    obtain t r where a: "a = (t, r)" by (cases a)
    have "rate_limit t (f r) l = rate_limit t r l"
      by (simp add: rate_limit_def)
    with Cons show ?case by (simp add: a split: prod.splits)
  qed
  then show ?thesis
    by (simp add: rate_limit_def)
qed

end
